theory Spec2Isabelle
  imports Main "HOL-Library.Sublist"
begin

section \<open>Python values: exceptions and strings\<close>

text \<open>
  The exceptions the two components can meet. Only classes derived from Python's
  \<open>Exception\<close> are modelled, so a bare \<open>except:\<close> and \<open>except Exception\<close> catch
  every value of this type. \<open>TimeoutException\<close>, \<open>NoSuchElementException\<close> and
  \<open>ElementClickInterceptedException\<close> are Selenium's, \<open>WebDriverException\<close> stands for
  every other Selenium error (lost session, stale element, closed window);
  \<open>TimeoutExpired\<close> is a subclass of \<open>SubprocessError\<close>; \<open>OSError\<close> is what
  \<open>subprocess.run\<close> raises when the program cannot be started.
\<close>

datatype exn =
    NoSuchElementException
  | TimeoutException
  | ElementClickInterceptedException
  | WebDriverException
  | TimeoutExpired
  | SubprocessError
  | OSError

text \<open>Python's \<open>needle in haystack\<close> on strings.\<close>

fun py_in :: "string \<Rightarrow> string \<Rightarrow> bool" where
  "py_in p [] = (p = [])"
| "py_in p (c # cs) = (prefix p (c # cs) \<or> py_in p cs)"

text \<open>\<open>str.lower()\<close> and \<open>str.strip()\<close>, on the ASCII range that a \<open>char\<close> carries.\<close>

definition lower_char :: "char \<Rightarrow> char" where
  "lower_char c =
     (case map_of (zip ''ABCDEFGHIJKLMNOPQRSTUVWXYZ'' ''abcdefghijklmnopqrstuvwxyz'') c of
        Some l \<Rightarrow> l
      | None \<Rightarrow> c)"

definition lower :: "string \<Rightarrow> string" where
  "lower s = map lower_char s"

definition whitespace :: string where
  "whitespace = [CHR 0x20, CHR 0x09, CHR 0x0A, CHR 0x0B, CHR 0x0C, CHR 0x0D, CHR 0x1C, CHR 0x1D, CHR 0x1E, CHR 0x1F]"

definition is_space :: "char \<Rightarrow> bool" where
  "is_space c = (c \<in> set whitespace)"

definition strip :: "string \<Rightarrow> string" where
  "strip s = rev (dropWhile is_space (rev (dropWhile is_space s)))"

text \<open>\<open>str(n)\<close> for a Python int.\<close>

fun str_nat :: "nat \<Rightarrow> string" where
  "str_nat n =
     (if n < 10 then [''0123456789'' ! n]
      else str_nat (n div 10) @ [''0123456789'' ! (n mod 10)])"

declare str_nat.simps [simp del]

definition str :: "int \<Rightarrow> string" where
  "str i = (if i < 0 then CHR ''-'' # str_nat (nat (- i)) else str_nat (nat i))"

text \<open>\<open>x or ""\<close> where \<open>x\<close> is a string or \<open>None\<close>.\<close>

definition or_empty :: "string option \<Rightarrow> string" where
  "or_empty x = (case x of None \<Rightarrow> [] | Some s \<Rightarrow> if s = [] then [] else s)"

section \<open>The browser session\<close>

text \<open>
  A locator is Selenium's pair of a strategy and a selector. An element is a handle.
  Timeouts handed to the browser are in milliseconds (the source's \<open>0.5\<close> is \<open>500\<close>).
\<close>

datatype By = XPATH | CSS_SELECTOR | TAG_NAME

type_synonym locator = "By \<times> string"

type_synonym elem = nat

datatype key = CONTROL | ENTER

datatype key_action = KeyDown key | KeyUp key | SendKeys string | SendKey key

text \<open>
  Every interaction with the browser is recorded, in order, in a trace. The session is
  external to the repository: it is a record of oracles that answer each interaction from
  the trace of what was done before it, by an exception (\<open>Inl\<close>, or \<open>Some\<close> for an
  interaction without a result) or a value.
\<close>

datatype action =
    WaitPresence locator nat
  | WaitClickable locator nat
  | FindElement locator
  | FindElementIn elem locator
  | FindElementsIn elem locator
  | Click elem
  | ExecuteClick elem
  | GetAttribute elem string
  | GetText elem
  | IsDisplayed elem
  | IsEnabled elem
  | Perform "key_action list"
  | Sleep nat

type_synonym trace = "action list"

record browser =
  until_presence :: "trace \<Rightarrow> locator \<Rightarrow> nat \<Rightarrow> exn + elem"
  until_clickable :: "trace \<Rightarrow> locator \<Rightarrow> nat \<Rightarrow> exn + elem"
  find_element :: "trace \<Rightarrow> locator \<Rightarrow> exn + elem"
  elem_find_element :: "trace \<Rightarrow> elem \<Rightarrow> locator \<Rightarrow> exn + elem"
  elem_find_elements :: "trace \<Rightarrow> elem \<Rightarrow> locator \<Rightarrow> exn + elem list"
  elem_click :: "trace \<Rightarrow> elem \<Rightarrow> exn option"
  execute_click :: "trace \<Rightarrow> elem \<Rightarrow> exn option"
  get_attribute :: "trace \<Rightarrow> elem \<Rightarrow> string \<Rightarrow> exn + string option"
  elem_text :: "trace \<Rightarrow> elem \<Rightarrow> exn + string"
  is_displayed :: "trace \<Rightarrow> elem \<Rightarrow> exn + bool"
  is_enabled :: "trace \<Rightarrow> elem \<Rightarrow> exn + bool"
  perform :: "trace \<Rightarrow> key_action list \<Rightarrow> exn option"

text \<open>
  Truth value of \<open>if element:\<close> where the variable holds a WebElement or \<open>None\<close>: a
  WebElement defines neither \<open>__bool__\<close> nor \<open>__len__\<close>, so it is always true.
\<close>

fun truthy :: "elem option \<Rightarrow> bool" where
  "truthy None = False"
| "truthy (Some e) = True"

section \<open>The Selenium helper\<close>

text \<open>
  Modelled from the spec: \<open>try_multiple_locators\<close> of the Selenium helper object
  (\<open>robot_interface.selenium\<close>, whose source is not part of the given files). The spec:
  given an ordered list of candidate locators and a timeout budget, attempt each locator
  in turn; return the first element that becomes present within the timeout; if none
  resolve, return "not found" (no exception).
\<close>

fun try_multiple_locators :: "browser \<Rightarrow> locator list \<Rightarrow> nat \<Rightarrow> trace \<Rightarrow> elem option \<times> trace" where
  "try_multiple_locators d [] timeout tr = (None, tr)"
| "try_multiple_locators d (l # ls) timeout tr =
     (case until_presence d tr l timeout of
        Inr element \<Rightarrow> (Some element, tr @ [WaitPresence l timeout])
      | Inl _ \<Rightarrow> try_multiple_locators d ls timeout (tr @ [WaitPresence l timeout]))"

text \<open>
  Modelled from the spec: \<open>click_element_robust\<close> of the same helper object. The spec:
  try a direct click; if it is intercepted, fall back to a programmatic click. The spec
  does not say what happens to any other failure: it is left to propagate.
\<close>

definition click_element_robust :: "browser \<Rightarrow> elem \<Rightarrow> trace \<Rightarrow> exn option \<times> trace" where
  "click_element_robust d e tr =
     (case elem_click d tr e of
        None \<Rightarrow> (None, tr @ [Click e])
      | Some x \<Rightarrow>
          if x = ElementClickInterceptedException
          then (execute_click d (tr @ [Click e]) e, tr @ [Click e, ExecuteClick e])
          else (Some x, tr @ [Click e]))"

section \<open>FrankaRobotCommands\<close>

subsection \<open>Element waits\<close>

definition wait_for_element :: "browser \<Rightarrow> locator \<Rightarrow> nat \<Rightarrow> trace \<Rightarrow> elem option \<times> trace" where
  "wait_for_element d locator timeout tr =
     (case until_presence d tr locator timeout of
        Inr element \<Rightarrow> (Some element, tr @ [WaitPresence locator timeout])
      | Inl _ \<Rightarrow> (None, tr @ [WaitPresence locator timeout]))"

definition wait_for_clickable_element :: "browser \<Rightarrow> locator \<Rightarrow> nat \<Rightarrow> trace \<Rightarrow> elem option \<times> trace" where
  "wait_for_clickable_element d locator timeout tr =
     (case until_clickable d tr locator timeout of
        Inr element \<Rightarrow> (Some element, tr @ [WaitClickable locator timeout])
      | Inl _ \<Rightarrow> (None, tr @ [WaitClickable locator timeout]))"

subsection \<open>Task selection\<close>

definition task_container_locators :: "locator list" where
  "task_container_locators =
     [(XPATH, ''/html/body/div[2]/section/section/one-library/div/div[1]/div[2]''),
      (CSS_SELECTOR, ''one-library div[class*='div'][class*='div'] div[class*='div']'')]"

definition task_locators :: "string \<Rightarrow> locator list" where
  "task_locators task_name =
     [(XPATH, ''.//span[text()='' @ [CHR 0x27] @ task_name @ [CHR 0x27] @ '']''),
      (XPATH, ''.//*[contains(text(), '' @ [CHR 0x27] @ task_name @ [CHR 0x27] @ '')]'')]"

text \<open>
  The loop \<open>for locator in task_locators\<close>: a locator whose lookup or whose click raises
  is skipped by the bare \<open>except: continue\<close>; falling out of the loop is the failure.
\<close>

fun select_task_loop :: "browser \<Rightarrow> elem \<Rightarrow> locator list \<Rightarrow> trace \<Rightarrow> bool \<times> trace" where
  "select_task_loop d task_container [] tr = (False, tr)"
| "select_task_loop d task_container (locator # rest) tr =
     (case elem_find_element d tr task_container locator of
        Inl _ \<Rightarrow> select_task_loop d task_container rest (tr @ [FindElementIn task_container locator])
      | Inr task_element \<Rightarrow>
          if truthy (Some task_element) then
            (case click_element_robust d task_element (tr @ [FindElementIn task_container locator]) of
               (None, tr') \<Rightarrow> (True, tr')
             | (Some _, tr') \<Rightarrow> select_task_loop d task_container rest tr')
          else select_task_loop d task_container rest (tr @ [FindElementIn task_container locator]))"

definition select_task_from_list :: "browser \<Rightarrow> string \<Rightarrow> trace \<Rightarrow> bool \<times> trace" where
  "select_task_from_list d task_name tr =
     (case try_multiple_locators d task_container_locators 5000 tr of
        (None, tr1) \<Rightarrow> (False, tr1)
      | (Some task_container, tr1) \<Rightarrow>
          select_task_loop d task_container (task_locators task_name) tr1)"

subsection \<open>Task execution\<close>

definition execution_locators :: "locator list" where
  "execution_locators =
     [(CSS_SELECTOR, ''body > div:nth-child(2) > section > one-sidebar > div.sidebar-body > div > div.fixed-sections > footer > section > div > div''),
      (XPATH, ''/html/body/div[2]/section/one-sidebar/div[1]/div/div[2]/footer/section/div/div''),
      (CSS_SELECTOR, ''one-sidebar footer section div div'')]"

text \<open>
  The helper's click is outside any \<open>try\<close> in the three functions that click a resolved
  element, so an exception it raises leaves the function.
\<close>

definition click_execution_button :: "browser \<Rightarrow> trace \<Rightarrow> (exn + bool) \<times> trace" where
  "click_execution_button d tr =
     (case try_multiple_locators d execution_locators 5000 tr of
        (Some execution_button, tr1) \<Rightarrow>
          (case click_element_robust d execution_button tr1 of
             (None, tr2) \<Rightarrow> (Inr True, tr2)
           | (Some x, tr2) \<Rightarrow> (Inl x, tr2))
      | (None, tr1) \<Rightarrow> (Inr False, tr1))"

definition confirm_locators :: "locator list" where
  "confirm_locators =
     [(XPATH, ''/html/body/div[3]/div[3]/div/div[2]/div[3]/div[2]/span/button''),
      (XPATH, ''//button[contains(., 'CONFIRM')]'')]"

definition click_confirm_button :: "browser \<Rightarrow> trace \<Rightarrow> (exn + bool) \<times> trace" where
  "click_confirm_button d tr =
     (case try_multiple_locators d confirm_locators 10000 tr of
        (Some confirm_button, tr1) \<Rightarrow>
          (case click_element_robust d confirm_button tr1 of
             (None, tr2) \<Rightarrow> (Inr True, tr2)
           | (Some x, tr2) \<Rightarrow> (Inl x, tr2))
      | (None, tr1) \<Rightarrow> (Inr False, tr1))"

definition ready_locator :: locator where
  "ready_locator = (XPATH, ''//*[contains(text(), 'Ready')]'')"

text \<open>
  \<open>wait_for_ready\<close> returns \<open>True\<close>, \<open>False\<close> or, by falling off the end of the
  \<open>try\<close> when \<open>if ready_element:\<close> is false, Python's \<open>None\<close> (here \<open>Inr None\<close>). Only
  \<open>TimeoutException\<close> is caught.
\<close>

definition wait_for_ready :: "browser \<Rightarrow> trace \<Rightarrow> (exn + bool option) \<times> trace" where
  "wait_for_ready d tr =
     (case until_presence d tr ready_locator 30000 of
        Inr ready_element \<Rightarrow>
          if truthy (Some ready_element) then (Inr (Some True), tr @ [WaitPresence ready_locator 30000])
          else (Inr None, tr @ [WaitPresence ready_locator 30000])
      | Inl x \<Rightarrow>
          if x = TimeoutException then (Inr (Some False), tr @ [WaitPresence ready_locator 30000])
          else (Inl x, tr @ [WaitPresence ready_locator 30000]))"

subsection \<open>Task configuration\<close>

definition icon_locators :: "locator list" where
  "icon_locators =
     [(CSS_SELECTOR, ''.drag-area''),
      (XPATH, ''//div[@class='drag-area']''),
      (XPATH, ''//one-timeline-skill//div[contains(@class, 'drag-area')]''),
      (XPATH, ''//svg/use[@xlink:href*='gripper']/../..''),
      (XPATH, ''//svg/use[contains(@xlink:href, 'logo.svg')]/../..''),
      (XPATH, ''//use[@xlink:href='bundles/gripper_grasp/logo.svg#icon']/../..''),
      (XPATH, ''//use[@xlink:href*='gripper']/../..'')]"

definition click_task_icon_for_config :: "browser \<Rightarrow> trace \<Rightarrow> (exn + bool) \<times> trace" where
  "click_task_icon_for_config d tr =
     (case try_multiple_locators d icon_locators 5000 tr of
        (Some icon_element, tr1) \<Rightarrow>
          (case click_element_robust d icon_element tr1 of
             (None, tr2) \<Rightarrow> (Inr True, tr2)
           | (Some x, tr2) \<Rightarrow> (Inl x, tr2))
      | (None, tr1) \<Rightarrow> (Inr False, tr1))"

text \<open>
  Sequencing of interactions that may raise: the first exception ends the sequence and
  is its result.
\<close>

definition bind :: "(trace \<Rightarrow> (exn + 'a) \<times> trace) \<Rightarrow> ('a \<Rightarrow> trace \<Rightarrow> (exn + 'b) \<times> trace) \<Rightarrow> trace \<Rightarrow> (exn + 'b) \<times> trace" where
  "bind m f tr = (case m tr of (Inl x, tr') \<Rightarrow> (Inl x, tr') | (Inr v, tr') \<Rightarrow> f v tr')"

definition ret :: "'a \<Rightarrow> trace \<Rightarrow> (exn + 'a) \<times> trace" where
  "ret v tr = (Inr v, tr)"

definition read_text :: "browser \<Rightarrow> elem \<Rightarrow> trace \<Rightarrow> (exn + string) \<times> trace" where
  "read_text d e tr = (elem_text d tr e, tr @ [GetText e])"

definition read_is_displayed :: "browser \<Rightarrow> elem \<Rightarrow> trace \<Rightarrow> (exn + bool) \<times> trace" where
  "read_is_displayed d e tr = (is_displayed d tr e, tr @ [IsDisplayed e])"

definition read_is_enabled :: "browser \<Rightarrow> elem \<Rightarrow> trace \<Rightarrow> (exn + bool) \<times> trace" where
  "read_is_enabled d e tr = (is_enabled d tr e, tr @ [IsEnabled e])"

text \<open>
  The direct click of a Continue button and, when it raises, the JavaScript click. The
  result says whether one of them went through (the function then returns \<open>True\<close>).
\<close>

definition click_or_script :: "browser \<Rightarrow> elem \<Rightarrow> trace \<Rightarrow> (exn + bool) \<times> trace" where
  "click_or_script d button tr =
     (case elem_click d tr button of
        None \<Rightarrow> (Inr True, tr @ [Click button])
      | Some e1 \<Rightarrow>
          (case execute_click d (tr @ [Click button]) button of
             None \<Rightarrow> (Inr True, tr @ [Click button, ExecuteClick button])
           | Some e2 \<Rightarrow> (Inr False, tr @ [Click button, ExecuteClick button])))"

text \<open>
  The body of the inner \<open>try\<close> for one button. The f-strings handed to the logger call
  \<open>is_displayed()\<close>, \<open>is_enabled()\<close> and \<open>text\<close> on the button, so these are
  interactions of their own and may raise. The result \<open>True\<close> is the \<open>return True\<close>;
  \<open>False\<close> is reaching the end of the body.
\<close>

definition continue_button_body :: "browser \<Rightarrow> elem \<Rightarrow> trace \<Rightarrow> (exn + bool) \<times> trace" where
  "continue_button_body d button =
     bind (read_text d button) (\<lambda>t.
     bind (read_is_displayed d button) (\<lambda>_.
     bind (read_is_enabled d button) (\<lambda>_.
       if py_in ''continue'' (lower (strip t)) then
         bind (read_text d button) (\<lambda>_.
         bind (read_is_displayed d button) (\<lambda>displayed.
         bind (if displayed then read_is_enabled d button else ret False) (\<lambda>clickable.
           if clickable then click_or_script d button
           else
             bind (read_is_displayed d button) (\<lambda>_.
             bind (read_is_enabled d button) (\<lambda>_. ret False)))))
       else ret False)))"

text \<open>The loop over the buttons: \<open>except Exception: continue\<close> around the body.\<close>

fun continue_button_loop :: "browser \<Rightarrow> elem list \<Rightarrow> trace \<Rightarrow> bool \<times> trace" where
  "continue_button_loop d [] tr = (False, tr)"
| "continue_button_loop d (button # buttons) tr =
     (case continue_button_body d button tr of
        (Inr True, tr') \<Rightarrow> (True, tr')
      | (Inr False, tr') \<Rightarrow> continue_button_loop d buttons tr'
      | (Inl _, tr') \<Rightarrow> continue_button_loop d buttons tr')"

definition container_xpath :: string where
  "container_xpath = ''/html/body/div[2]/section/section/section/one-timeline/div[3]/div/one-container/div/one-timeline-skill/div/one-context-menu/div/div[4]/div[1]''"

definition click_continue_button :: "browser \<Rightarrow> trace \<Rightarrow> bool \<times> trace" where
  "click_continue_button d tr =
     (case wait_for_element d (XPATH, container_xpath) 10000 tr of
        (None, tr1) \<Rightarrow> (False, tr1)
      | (Some container, tr1) \<Rightarrow>
          (case elem_find_elements d tr1 container (TAG_NAME, ''button'') of
             Inl _ \<Rightarrow> (False, tr1 @ [FindElementsIn container (TAG_NAME, ''button'')])
           | Inr buttons \<Rightarrow>
               continue_button_loop d buttons (tr1 @ [FindElementsIn container (TAG_NAME, ''button'')])))"

subsection \<open>Numeric fields\<close>

text \<open>
  The key sequence built with \<open>ActionChains\<close> and sent by \<open>perform()\<close>: Ctrl+A, the
  decimal string of the value, Enter.
\<close>

definition type_value :: "int \<Rightarrow> key_action list" where
  "type_value v = [KeyDown CONTROL, SendKeys ''a'', KeyUp CONTROL, SendKeys (str v), SendKey ENTER]"

definition speed_input_xpath :: string where
  "speed_input_xpath = ''/html/body/div[2]/section/section/section/one-timeline/div[3]/div/one-container/div/one-timeline-skill/div/one-context-menu/div/div[3]/div[4]/div/step/linear-slider/step/div/div[4]/div[1]''"

definition force_input_xpath :: string where
  "force_input_xpath = ''/html/body/div[2]/section/section/section/one-timeline/div[3]/div/one-container/div/one-timeline-skill/div/one-context-menu/div/div[3]/div[7]/div/step/linear-slider/step/div/div[4]''"

definition load_input_xpath :: string where
  "load_input_xpath = ''/html/body/div[2]/section/section/section/one-timeline/div[3]/div/one-container/div/one-timeline-skill/div/one-context-menu/div/div[3]/div[10]/div/step/linear-slider/step/div/div[4]''"

definition set_speed_value :: "browser \<Rightarrow> int \<Rightarrow> trace \<Rightarrow> bool \<times> trace" where
  "set_speed_value d speed tr =
     (if \<not> (10 \<le> speed \<and> speed \<le> 100) then (False, tr)
      else
        (case wait_for_element d (XPATH, speed_input_xpath) 15000 tr of
           (None, tr1) \<Rightarrow> (False, tr1)
         | (Some speed_element, tr1) \<Rightarrow>
             (case elem_click d tr1 speed_element of
                Some _ \<Rightarrow> (False, tr1 @ [Click speed_element])
              | None \<Rightarrow>
                  (case perform d (tr1 @ [Click speed_element]) (type_value speed) of
                     Some _ \<Rightarrow> (False, tr1 @ [Click speed_element, Perform (type_value speed)])
                   | None \<Rightarrow> (True, tr1 @ [Click speed_element, Perform (type_value speed)])))))"

definition set_force_value :: "browser \<Rightarrow> int \<Rightarrow> trace \<Rightarrow> bool \<times> trace" where
  "set_force_value d force tr =
     (case wait_for_element d (XPATH, force_input_xpath) 15000 tr of
        (None, tr1) \<Rightarrow> (False, tr1)
      | (Some force_element, tr1) \<Rightarrow>
          (case elem_click d tr1 force_element of
             Some _ \<Rightarrow> (False, tr1 @ [Click force_element])
           | None \<Rightarrow>
               (case perform d (tr1 @ [Click force_element]) (type_value force) of
                  Some _ \<Rightarrow> (False, tr1 @ [Click force_element, Perform (type_value force)])
                | None \<Rightarrow> (True, tr1 @ [Click force_element, Perform (type_value force)]))))"

definition set_load_value :: "browser \<Rightarrow> int \<Rightarrow> trace \<Rightarrow> bool \<times> trace" where
  "set_load_value d load tr =
     (case wait_for_element d (XPATH, load_input_xpath) 15000 tr of
        (None, tr1) \<Rightarrow> (False, tr1)
      | (Some load_element, tr1) \<Rightarrow>
          (case elem_click d tr1 load_element of
             Some _ \<Rightarrow> (False, tr1 @ [Click load_element])
           | None \<Rightarrow>
               (case perform d (tr1 @ [Click load_element]) (type_value load) of
                  Some _ \<Rightarrow> (False, tr1 @ [Click load_element, Perform (type_value load)])
                | None \<Rightarrow> (True, tr1 @ [Click load_element, Perform (type_value load)]))))"

subsection \<open>Completion poll\<close>

definition completion_button_locators :: "locator list" where
  "completion_button_locators =
     [(CSS_SELECTOR, ''body > div:nth-child(2) > section > one-sidebar > div.sidebar-body > div > div.fixed-sections > footer > section > div > div''),
      (XPATH, ''/html/body/div[2]/section/one-sidebar/div[1]/div/div[2]/footer/section/div/div'')]"

text \<open>
  The body of the inner \<open>try\<close> of one polling iteration; the bare \<open>except: pass\<close> makes
  every exception the same as not returning. The result \<open>True\<close> is the \<open>return True\<close>.
\<close>

definition poll_once :: "browser \<Rightarrow> trace \<Rightarrow> bool \<times> trace" where
  "poll_once d tr =
     (case find_element d tr ready_locator of
        Inl _ \<Rightarrow> (False, tr @ [FindElement ready_locator])
      | Inr ready_element \<Rightarrow>
          (case try_multiple_locators d completion_button_locators 500 (tr @ [FindElement ready_locator]) of
             (None, tr1) \<Rightarrow> (False, tr1)
           | (Some execution_button, tr1) \<Rightarrow>
               (case get_attribute d tr1 execution_button ''class'' of
                  Inl _ \<Rightarrow> (False, tr1 @ [GetAttribute execution_button ''class''])
                | Inr cls \<Rightarrow>
                    (case elem_text d (tr1 @ [GetAttribute execution_button ''class'']) execution_button of
                       Inl _ \<Rightarrow> (False, tr1 @ [GetAttribute execution_button ''class'', GetText execution_button])
                     | Inr txt \<Rightarrow>
                         (let button_classes = or_empty cls; button_text = lower txt
                          in (\<not> py_in ''stop'' button_classes \<and> \<not> py_in ''stop'' button_text,
                              tr1 @ [GetAttribute execution_button ''class'', GetText execution_button]))))))"

text \<open>
  \<open>for i in range(timeout * 2)\<close>, with \<open>time.sleep(0.5)\<close> after every iteration that
  did not return.
\<close>

fun completion_loop :: "browser \<Rightarrow> nat \<Rightarrow> trace \<Rightarrow> bool \<times> trace" where
  "completion_loop d 0 tr = (False, tr)"
| "completion_loop d (Suc n) tr =
     (case poll_once d tr of
        (True, tr') \<Rightarrow> (True, tr')
      | (False, tr') \<Rightarrow> completion_loop d n (tr' @ [Sleep 500]))"

definition wait_for_task_completion :: "browser \<Rightarrow> int \<Rightarrow> trace \<Rightarrow> bool \<times> trace" where
  "wait_for_task_completion d timeout tr = completion_loop d (nat (timeout * 2)) tr"

subsection \<open>High-level gripper commands\<close>

text \<open>
  \<open>if not step: return False\<close> followed by the rest of the script, and the
  \<open>try: ... except Exception: return False\<close> around a script.
\<close>

definition returns :: "bool \<times> trace \<Rightarrow> (exn + bool) \<times> trace" where
  "returns r = (Inr (fst r), snd r)"

definition unless_false :: "(exn + bool) \<times> trace \<Rightarrow> (trace \<Rightarrow> (exn + bool) \<times> trace) \<Rightarrow> (exn + bool) \<times> trace" where
  "unless_false step rest =
     (case step of
        (Inl x, tr) \<Rightarrow> (Inl x, tr)
      | (Inr ok, tr) \<Rightarrow> if \<not> ok then (Inr False, tr) else rest tr)"

definition except_Exception :: "(exn + bool) \<times> trace \<Rightarrow> bool \<times> trace" where
  "except_Exception r = (case r of (Inl _, tr) \<Rightarrow> (False, tr) | (Inr b, tr) \<Rightarrow> (b, tr))"

definition configure_gripper_open :: "browser \<Rightarrow> int \<Rightarrow> trace \<Rightarrow> bool \<times> trace" where
  "configure_gripper_open d speed tr =
     except_Exception
       (case wait_for_task_completion d 10 tr of
          (_, tr0) \<Rightarrow>
            unless_false (returns (select_task_from_list d ''Gripper_open'' tr0)) (\<lambda>tr1.
            unless_false (click_task_icon_for_config d tr1) (\<lambda>tr2.
            unless_false (returns (click_continue_button d tr2)) (\<lambda>tr3.
            unless_false (returns (set_speed_value d speed tr3)) (\<lambda>tr4.
            unless_false (returns (click_continue_button d tr4)) (\<lambda>tr5.
            (Inr True, tr5)))))))"

definition configure_gripper_close :: "browser \<Rightarrow> int \<Rightarrow> int \<Rightarrow> int \<Rightarrow> trace \<Rightarrow> bool \<times> trace" where
  "configure_gripper_close d speed force load tr =
     (if \<not> (10 \<le> speed \<and> speed \<le> 100) then (False, tr)
      else if \<not> (20 \<le> force \<and> force \<le> 100) then (False, tr)
      else if \<not> (10 \<le> load \<and> load \<le> 1000) then (False, tr)
      else
        except_Exception
          (case wait_for_task_completion d 10 tr of
             (_, tr0) \<Rightarrow>
               unless_false (returns (select_task_from_list d ''Gripper_close'' tr0)) (\<lambda>tr1.
               unless_false (click_task_icon_for_config d tr1) (\<lambda>tr2.
               unless_false (returns (click_continue_button d tr2)) (\<lambda>tr3.
               unless_false (returns (set_speed_value d speed tr3)) (\<lambda>tr4.
               unless_false (returns (click_continue_button d tr4)) (\<lambda>tr5.
               unless_false (returns (set_force_value d force tr5)) (\<lambda>tr6.
               unless_false (returns (click_continue_button d tr6)) (\<lambda>tr7.
               unless_false (returns (set_load_value d load tr7)) (\<lambda>tr8.
               unless_false (returns (click_continue_button d tr8)) (\<lambda>tr9.
               (Inr True, tr9))))))))))))"

definition gripper_open :: "browser \<Rightarrow> trace \<Rightarrow> (exn + bool) \<times> trace" where
  "gripper_open d tr =
     unless_false (returns (select_task_from_list d ''Gripper_open'' tr)) (\<lambda>tr1.
     unless_false (click_execution_button d tr1) (\<lambda>tr2.
     unless_false (click_confirm_button d tr2) (\<lambda>tr3.
     unless_false (returns (wait_for_task_completion d 30 tr3)) (\<lambda>tr4.
     (Inr True, tr4)))))"

definition gripper_close :: "browser \<Rightarrow> trace \<Rightarrow> (exn + bool) \<times> trace" where
  "gripper_close d tr =
     (case wait_for_task_completion d 10 tr of
        (_, tr0) \<Rightarrow>
          unless_false (returns (select_task_from_list d ''Gripper_close'' tr0)) (\<lambda>tr1.
          unless_false (click_execution_button d tr1) (\<lambda>tr2.
          unless_false (click_confirm_button d tr2) (\<lambda>tr3.
          unless_false (returns (wait_for_task_completion d 30 tr3)) (\<lambda>tr4.
          (Inr True, tr4))))))"

section \<open>NetworkManager\<close>

text \<open>
  The configuration object (its class is not among the given files) is taken as a record of
  the four attributes the code reads. The host answers \<open>subprocess.run\<close> from the list of
  the commands run before, by an exception or a completed process; the timeout is in
  seconds.
\<close>

record config =
  network_interface :: string
  local_ip :: string
  network_assignment :: string
  robot_ip :: string

record completed_process =
  returncode :: int
  stdout :: string
  stderr :: string

datatype command = Run "string list" nat

type_synonym host = "command list \<Rightarrow> string list \<Rightarrow> nat \<Rightarrow> exn + completed_process"

definition show_command :: "config \<Rightarrow> string list" where
  "show_command cfg = [''ip'', ''addr'', ''show'', network_interface cfg]"

definition add_command :: "config \<Rightarrow> string list" where
  "add_command cfg = [''sudo'', ''ip'', ''addr'', ''add'', network_assignment cfg, ''dev'', network_interface cfg]"

definition ping_command :: "config \<Rightarrow> string list" where
  "ping_command cfg = [''ping'', ''-c'', ''2'', ''-W'', ''3'', robot_ip cfg]"

definition check_network_configured :: "host \<Rightarrow> config \<Rightarrow> command list \<Rightarrow> (exn + bool) \<times> command list" where
  "check_network_configured h cfg tr =
     (case h tr (show_command cfg) 5 of
        Inr result \<Rightarrow>
          if returncode result = 0
          then (Inr (py_in (local_ip cfg) (stdout result)), tr @ [Run (show_command cfg) 5])
          else (Inr False, tr @ [Run (show_command cfg) 5])
      | Inl e \<Rightarrow>
          if e = TimeoutExpired \<or> e = SubprocessError
          then (Inr False, tr @ [Run (show_command cfg) 5])
          else (Inl e, tr @ [Run (show_command cfg) 5]))"

definition configure_network :: "host \<Rightarrow> config \<Rightarrow> command list \<Rightarrow> (exn + bool) \<times> command list" where
  "configure_network h cfg tr =
     (case check_network_configured h cfg tr of
        (Inl e, tr1) \<Rightarrow> (Inl e, tr1)
      | (Inr True, tr1) \<Rightarrow> (Inr True, tr1)
      | (Inr False, tr1) \<Rightarrow>
          (case h tr1 (add_command cfg) 10 of
             Inr result \<Rightarrow>
               if returncode result = 0
               then (Inr True, tr1 @ [Run (add_command cfg) 10])
               else (Inr False, tr1 @ [Run (add_command cfg) 10])
           | Inl _ \<Rightarrow> (Inr False, tr1 @ [Run (add_command cfg) 10])))"

definition test_robot_connectivity :: "host \<Rightarrow> config \<Rightarrow> command list \<Rightarrow> bool \<times> command list" where
  "test_robot_connectivity h cfg tr =
     (case h tr (ping_command cfg) 10 of
        Inr result \<Rightarrow>
          if returncode result = 0
          then (True, tr @ [Run (ping_command cfg) 10])
          else (False, tr @ [Run (ping_command cfg) 10])
      | Inl _ \<Rightarrow> (False, tr @ [Run (ping_command cfg) 10]))"

section \<open>Notions used to state the properties\<close>

text \<open>
  The answer the \<open>i\<close>-th locator of a fallback list gets when it is tried after the
  \<open>i\<close> locators before it.
\<close>

definition attempt :: "browser \<Rightarrow> nat \<Rightarrow> trace \<Rightarrow> locator list \<Rightarrow> nat \<Rightarrow> exn + elem" where
  "attempt d timeout tr ls i =
     until_presence d (tr @ map (\<lambda>l. WaitPresence l timeout) (take i ls)) (ls ! i) timeout"

text \<open>
  The trace at which polling iteration \<open>k\<close> of \<open>wait_for_task_completion\<close> begins when
  none of the iterations before it returned: each of them ran its body and slept.
\<close>

fun iteration_start :: "browser \<Rightarrow> trace \<Rightarrow> nat \<Rightarrow> trace" where
  "iteration_start d tr 0 = tr"
| "iteration_start d tr (Suc k) = snd (poll_once d (iteration_start d tr k)) @ [Sleep 500]"

text \<open>
  The time, in milliseconds, that the waits and sleeps of a trace were given: a wait its
  timeout, a sleep its duration. A wait that ends in \<open>TimeoutException\<close> has used all of
  its timeout, so in a session whose waits all time out this is time really spent.
\<close>

fun waited_ms :: "action \<Rightarrow> nat" where
  "waited_ms (WaitPresence l t) = t"
| "waited_ms (WaitClickable l t) = t"
| "waited_ms (Sleep t) = t"
| "waited_ms a = 0"

definition trace_ms :: "trace \<Rightarrow> nat" where
  "trace_ms tr = sum_list (map waited_ms tr)"

section \<open>Stub sessions\<close>

text \<open>
  A session in which no element is ever found, and interactions with an element (there is
  none to interact with) would go through.
\<close>

definition silent_browser :: browser where
  "silent_browser =
     \<lparr> until_presence = (\<lambda>tr l t. Inl TimeoutException),
       until_clickable = (\<lambda>tr l t. Inl TimeoutException),
       find_element = (\<lambda>tr l. Inl NoSuchElementException),
       elem_find_element = (\<lambda>tr e l. Inl NoSuchElementException),
       elem_find_elements = (\<lambda>tr e l. Inr []),
       elem_click = (\<lambda>tr e. None),
       execute_click = (\<lambda>tr e. None),
       get_attribute = (\<lambda>tr e a. Inr None),
       elem_text = (\<lambda>tr e. Inr []),
       is_displayed = (\<lambda>tr e. Inr True),
       is_enabled = (\<lambda>tr e. Inr True),
       perform = (\<lambda>tr ks. None) \<rparr>"

text \<open>A session in which only a CSS locator and a contains-text locator match.\<close>

definition second_only :: browser where
  "second_only = silent_browser
     \<lparr> until_presence := (\<lambda>tr l t. if fst l = CSS_SELECTOR then Inr 7 else Inl TimeoutException),
       elem_find_element := (\<lambda>tr c l. if py_in ''contains'' (snd l) then Inr 9 else Inl NoSuchElementException) \<rparr>"

text \<open>
  A session in which every lookup resolves, every interaction goes through, and the
  execution button shows a play icon.
\<close>

definition cooperative_browser :: browser where
  "cooperative_browser =
     \<lparr> until_presence = (\<lambda>tr l t. Inr 1),
       until_clickable = (\<lambda>tr l t. Inr 1),
       find_element = (\<lambda>tr l. Inr 2),
       elem_find_element = (\<lambda>tr e l. Inr 3),
       elem_find_elements = (\<lambda>tr e l. Inr [4]),
       elem_click = (\<lambda>tr e. None),
       execute_click = (\<lambda>tr e. None),
       get_attribute = (\<lambda>tr e a. Inr (Some ''play'')),
       elem_text = (\<lambda>tr e. Inr ''Continue''),
       is_displayed = (\<lambda>tr e. Inr True),
       is_enabled = (\<lambda>tr e. Inr True),
       perform = (\<lambda>tr ks. None) \<rparr>"

text \<open>The same session with the execution button labelled in capitals.\<close>

definition shouting_browser :: browser where
  "shouting_browser = cooperative_browser \<lparr> elem_text := (\<lambda>tr e. Inr ''STOP'') \<rparr>"

text \<open>A session whose execution button shows Stop until the first sleep, then Run.\<close>

definition finishing_browser :: browser where
  "finishing_browser = cooperative_browser
     \<lparr> elem_text := (\<lambda>tr e. if Sleep 500 \<in> set tr then Inr ''Run'' else Inr ''Stop'') \<rparr>"

text \<open>A session whose execution button shows Stop for ever.\<close>

definition running_browser :: browser where
  "running_browser = cooperative_browser \<lparr> elem_text := (\<lambda>tr e. Inr ''Stop'') \<rparr>"

text \<open>A session that shows the Ready text but in which no waited-for element resolves.\<close>

definition buttonless_browser :: browser where
  "buttonless_browser = cooperative_browser \<lparr> until_presence := (\<lambda>tr l t. Inl TimeoutException) \<rparr>"

text \<open>
  A session in which both task locators match, but the element of the exact-text locator
  cannot be clicked.
\<close>

definition exact_blocked :: browser where
  "exact_blocked = cooperative_browser
     \<lparr> elem_find_element := (\<lambda>tr c l. if py_in ''contains'' (snd l) then Inr 9 else Inr 8),
       elem_click := (\<lambda>tr e. if e = 8 then Some WebDriverException else None) \<rparr>"

text \<open>A session that is lost: every wait raises Selenium's general error.\<close>

definition crashed_browser :: browser where
  "crashed_browser = cooperative_browser \<lparr> until_presence := (\<lambda>tr l t. Inl WebDriverException) \<rparr>"

text \<open>
  An example configuration, a host on which the \<open>ip\<close> program cannot be started, and a
  host whose interface already carries the expected address.
\<close>

definition lab_config :: config where
  "lab_config =
     \<lparr> network_interface = ''eth0'', local_ip = ''172.16.0.1'',
       network_assignment = ''172.16.0.1/24'', robot_ip = ''172.16.0.2'' \<rparr>"

definition missing_ip_host :: host where
  "missing_ip_host = (\<lambda>tr cmd t. Inl OSError)"

definition configured_host :: host where
  "configured_host =
     (\<lambda>tr cmd t. Inr \<lparr> returncode = 0, stdout = ''inet 172.16.0.1/24 scope global eth0'', stderr = [] \<rparr>)"

section \<open>Fallback resolution\<close>

lemma try_multiple_locators_first:
  "k < length ls \<Longrightarrow> \<forall>i<k. isl (attempt d t tr ls i) \<Longrightarrow> attempt d t tr ls k = Inr e \<Longrightarrow>
   try_multiple_locators d ls t tr = (Some e, tr @ map (\<lambda>l. WaitPresence l t) (take (Suc k) ls))"
proof (induction ls arbitrary: k tr)
  case Nil
  then show ?case by simp
next
  case (Cons a ls)
  show ?case
  proof (cases k)
    case 0
    with Cons.prems show ?thesis by (simp add: attempt_def)
  next
    case (Suc j)
    from Cons.prems(2) Suc have hd: "isl (until_presence d tr a t)"
      by (auto simp: attempt_def dest: spec [of _ 0])
    have rest: "\<forall>i<j. isl (attempt d t (tr @ [WaitPresence a t]) ls i)"
    proof (intro allI impI)
      fix i assume "i < j"
      then have "isl (attempt d t tr (a # ls) (Suc i))" using Cons.prems(2) Suc by simp
      then show "isl (attempt d t (tr @ [WaitPresence a t]) ls i)" by (simp add: attempt_def)
    qed
    have last: "attempt d t (tr @ [WaitPresence a t]) ls j = Inr e"
      using Cons.prems(3) Suc by (simp add: attempt_def)
    have "j < length ls" using Cons.prems(1) Suc by simp
    from Cons.IH [OF this rest last] hd show ?thesis
      using Suc by (auto split: sum.splits)
  qed
qed

lemma try_multiple_locators_none:
  "\<forall>i<length ls. isl (attempt d t tr ls i) \<Longrightarrow>
   try_multiple_locators d ls t tr = (None, tr @ map (\<lambda>l. WaitPresence l t) ls)"
proof (induction ls arbitrary: tr)
  case Nil
  then show ?case by simp
next
  case (Cons a ls)
  from Cons.prems have hd: "isl (until_presence d tr a t)"
    by (auto simp: attempt_def dest: spec [of _ 0])
  have rest: "\<forall>i<length ls. isl (attempt d t (tr @ [WaitPresence a t]) ls i)"
  proof (intro allI impI)
    fix i assume "i < length ls"
    then have "isl (attempt d t tr (a # ls) (Suc i))" using Cons.prems by simp
    then show "isl (attempt d t (tr @ [WaitPresence a t]) ls i)" by (simp add: attempt_def)
  qed
  from Cons.IH [OF rest] hd show ?case by (auto split: sum.splits)
qed

lemma select_exact_first:
  assumes "try_multiple_locators d task_container_locators 5000 tr = (Some c, tr1)"
    and "elem_find_element d tr1 c (task_locators name ! 0) = Inr e"
    and "click_element_robust d e (tr1 @ [FindElementIn c (task_locators name ! 0)]) = (None, tr2)"
  shows "select_task_from_list d name tr = (True, tr2)"
  using assms by (simp add: select_task_from_list_def task_locators_def)

lemma select_contains_second:
  assumes "try_multiple_locators d task_container_locators 5000 tr = (Some c, tr1)"
    and "(isl (elem_find_element d tr1 c (task_locators name ! 0)) \<and> tr2 = tr1 @ [FindElementIn c (task_locators name ! 0)])
         \<or> (\<exists>e0 x. elem_find_element d tr1 c (task_locators name ! 0) = Inr e0
               \<and> click_element_robust d e0 (tr1 @ [FindElementIn c (task_locators name ! 0)]) = (Some x, tr2))"
    and "elem_find_element d tr2 c (task_locators name ! 1) = Inr e"
    and "click_element_robust d e (tr2 @ [FindElementIn c (task_locators name ! 1)]) = (None, tr3)"
  shows "select_task_from_list d name tr = (True, tr3)"
  using assms by (auto simp add: select_task_from_list_def task_locators_def split: sum.splits)

text \<open>
  Claim C1. Fallback resolution tries the locators strictly in listed order and returns the
  first element that resolves, skipping the remaining locators: when the locators before
  index \<open>k\<close> fail and locator \<open>k\<close> resolves, its element is returned and exactly the
  first \<open>k + 1\<close> locators were tried, in order; when all fail, all were tried and nothing
  is returned. In \<open>select_task_from_list\<close>, once the task container is resolved, the
  exact-text locator is tried first and the function returns success at its click; the
  contains-text locator is tried only when the exact-text one was not found or its click
  raised, and the function then returns success at the click of the contains-text element.
\<close>

theorem locators_tried_in_order_first_match_wins:
  "(k < length ls \<and> (\<forall>i<k. isl (attempt d t tr ls i)) \<and> attempt d t tr ls k = Inr e
      \<longrightarrow> try_multiple_locators d ls t tr
            = (Some e, tr @ map (\<lambda>l. WaitPresence l t) (take (Suc k) ls)))
   \<and> ((\<forall>i<length ls. isl (attempt d t tr ls i))
      \<longrightarrow> try_multiple_locators d ls t tr = (None, tr @ map (\<lambda>l. WaitPresence l t) ls))
   \<and> (try_multiple_locators d task_container_locators 5000 tr = (Some c, tr1)
      \<and> elem_find_element d tr1 c (task_locators name ! 0) = Inr e1
      \<and> click_element_robust d e1 (tr1 @ [FindElementIn c (task_locators name ! 0)]) = (None, tr2)
      \<longrightarrow> select_task_from_list d name tr = (True, tr2))
   \<and> (try_multiple_locators d task_container_locators 5000 tr = (Some c, tr1)
      \<and> ((isl (elem_find_element d tr1 c (task_locators name ! 0))
            \<and> tr2 = tr1 @ [FindElementIn c (task_locators name ! 0)])
          \<or> (\<exists>e0 x. elem_find_element d tr1 c (task_locators name ! 0) = Inr e0
                \<and> click_element_robust d e0 (tr1 @ [FindElementIn c (task_locators name ! 0)]) = (Some x, tr2)))
      \<and> elem_find_element d tr2 c (task_locators name ! 1) = Inr e2
      \<and> click_element_robust d e2 (tr2 @ [FindElementIn c (task_locators name ! 1)]) = (None, tr3)
      \<longrightarrow> select_task_from_list d name tr = (True, tr3))"
  using try_multiple_locators_first [of k ls d t tr e] try_multiple_locators_none [of ls d t tr]
    select_exact_first [of d tr c tr1 name e1 tr2] select_contains_second [of d tr c tr1 name tr2 e2 tr3]
  by blast

lemma second_only_attempts:
  "attempt second_only 5000 [] [(XPATH, ''a''), (CSS_SELECTOR, ''b''), (XPATH, ''c'')] 0 = Inl TimeoutException"
  "attempt second_only 5000 [] [(XPATH, ''a''), (CSS_SELECTOR, ''b''), (XPATH, ''c'')] 1 = Inr 7"
  by (simp_all add: attempt_def second_only_def silent_browser_def)

theorem locators_tried_in_order_first_match_wins_witness:
  "try_multiple_locators second_only [(XPATH, ''a''), (CSS_SELECTOR, ''b''), (XPATH, ''c'')] 5000 []
     = (Some 7, [WaitPresence (XPATH, ''a'') 5000, WaitPresence (CSS_SELECTOR, ''b'') 5000])
   \<and> try_multiple_locators silent_browser [(XPATH, ''a''), (CSS_SELECTOR, ''b'')] 5000 []
     = (None, [WaitPresence (XPATH, ''a'') 5000, WaitPresence (CSS_SELECTOR, ''b'') 5000])
   \<and> select_task_from_list cooperative_browser ''Gripper_open'' []
     = (True, [WaitPresence (task_container_locators ! 0) 5000,
               FindElementIn 1 (task_locators ''Gripper_open'' ! 0), Click 3])
   \<and> select_task_from_list second_only ''Gripper_open'' []
     = (True, [WaitPresence (task_container_locators ! 0) 5000, WaitPresence (task_container_locators ! 1) 5000,
               FindElementIn 7 (task_locators ''Gripper_open'' ! 0),
               FindElementIn 7 (task_locators ''Gripper_open'' ! 1), Click 9])
   \<and> select_task_from_list exact_blocked ''Gripper_open'' []
     = (True, [WaitPresence (task_container_locators ! 0) 5000,
               FindElementIn 1 (task_locators ''Gripper_open'' ! 0), Click 8,
               FindElementIn 1 (task_locators ''Gripper_open'' ! 1), Click 9])"
proof -
  let ?ls = "[(XPATH, ''a''), (CSS_SELECTOR, ''b''), (XPATH, ''c'')]"
  let ?ks = "[(XPATH, ''a''), (CSS_SELECTOR, ''b'')]"
  let ?n = "''Gripper_open''"
  let ?c0 = "[WaitPresence (task_container_locators ! 0) 5000]"
  let ?tr1 = "[WaitPresence (task_container_locators ! 0) 5000, WaitPresence (task_container_locators ! 1) 5000]"
  let ?tr2 = "?tr1 @ [FindElementIn 7 (task_locators ?n ! 0)]"
  let ?tr3 = "?tr2 @ [FindElementIn 7 (task_locators ?n ! 1), Click 9]"
  have a: "(1::nat) < length ?ls" by simp
  have b: "\<forall>i<1. isl (attempt second_only 5000 [] ?ls i)" by (simp add: second_only_attempts)
  have c: "attempt second_only 5000 [] ?ls 1 = Inr 7" by (rule second_only_attempts(2))
  have h1: "try_multiple_locators second_only task_container_locators 5000 [] = (Some 7, ?tr1)"
    by (simp add: task_container_locators_def second_only_def silent_browser_def)
  have h2: "isl (elem_find_element second_only ?tr1 7 (task_locators ?n ! 0)) \<and> ?tr2 = ?tr1 @ [FindElementIn 7 (task_locators ?n ! 0)]"
    by (simp add: task_locators_def second_only_def silent_browser_def)
  have h3: "elem_find_element second_only ?tr2 7 (task_locators ?n ! 1) = Inr 9"
    by (simp add: task_locators_def second_only_def silent_browser_def)
  have h4: "click_element_robust second_only 9 (?tr2 @ [FindElementIn 7 (task_locators ?n ! 1)]) = (None, ?tr3)"
    by (simp add: click_element_robust_def second_only_def silent_browser_def)
  from locators_tried_in_order_first_match_wins
         [of 1 ?ls second_only 5000 "[]" 7 7 ?tr1 ?n _ ?tr2 9 ?tr3]
       a b c h1 h2 h3 h4
  have w1: "try_multiple_locators second_only ?ls 5000 [] = (Some 7, [WaitPresence (XPATH, ''a'') 5000, WaitPresence (CSS_SELECTOR, ''b'') 5000])"
    and w4: "select_task_from_list second_only ?n [] = (True, ?tr3)"
    by simp_all
  have s: "\<forall>i<length ?ks. isl (attempt silent_browser 5000 [] ?ks i)"
    by (simp add: attempt_def silent_browser_def)
  from locators_tried_in_order_first_match_wins [of _ ?ks silent_browser 5000 "[]"] s
  have w2: "try_multiple_locators silent_browser ?ks 5000 [] = (None, [WaitPresence (XPATH, ''a'') 5000, WaitPresence (CSS_SELECTOR, ''b'') 5000])"
    by simp
  have g1: "try_multiple_locators cooperative_browser task_container_locators 5000 [] = (Some 1, ?c0)"
    by (simp add: task_container_locators_def cooperative_browser_def)
  have g2: "elem_find_element cooperative_browser ?c0 1 (task_locators ?n ! 0) = Inr 3"
    by (simp add: cooperative_browser_def)
  have g3: "click_element_robust cooperative_browser 3 (?c0 @ [FindElementIn 1 (task_locators ?n ! 0)])
      = (None, ?c0 @ [FindElementIn 1 (task_locators ?n ! 0), Click 3])"
    by (simp add: click_element_robust_def cooperative_browser_def)
  from locators_tried_in_order_first_match_wins
         [of _ _ cooperative_browser _ "[]" _ 1 ?c0 ?n 3 "?c0 @ [FindElementIn 1 (task_locators ?n ! 0), Click 3]"]
       g1 g2 g3
  have w3: "select_task_from_list cooperative_browser ?n []
      = (True, ?c0 @ [FindElementIn 1 (task_locators ?n ! 0), Click 3])"
    by blast
  let ?b2 = "?c0 @ [FindElementIn 1 (task_locators ?n ! 0), Click 8]"
  let ?b3 = "?b2 @ [FindElementIn 1 (task_locators ?n ! 1), Click 9]"
  have e1: "try_multiple_locators exact_blocked task_container_locators 5000 [] = (Some 1, ?c0)"
    by (simp add: task_container_locators_def exact_blocked_def cooperative_browser_def)
  have e2: "\<exists>e0 x. elem_find_element exact_blocked ?c0 1 (task_locators ?n ! 0) = Inr e0
      \<and> click_element_robust exact_blocked e0 (?c0 @ [FindElementIn 1 (task_locators ?n ! 0)]) = (Some x, ?b2)"
    by (simp add: task_locators_def click_element_robust_def exact_blocked_def cooperative_browser_def)
  have e3: "elem_find_element exact_blocked ?b2 1 (task_locators ?n ! 1) = Inr 9"
    by (simp add: task_locators_def exact_blocked_def cooperative_browser_def)
  have e4: "click_element_robust exact_blocked 9 (?b2 @ [FindElementIn 1 (task_locators ?n ! 1)]) = (None, ?b3)"
    by (simp add: click_element_robust_def exact_blocked_def cooperative_browser_def)
  from locators_tried_in_order_first_match_wins
         [of _ _ exact_blocked _ "[]" _ 1 ?c0 ?n _ ?b2 9 ?b3]
       e1 e2 e3 e4
  have w5: "select_task_from_list exact_blocked ?n [] = (True, ?b3)"
    by blast
  from w1 w2 w3 w4 w5 show ?thesis by simp
qed

section \<open>Every operation only extends the trace\<close>

lemma try_multiple_locators_prefix: "prefix tr (snd (try_multiple_locators d ls t tr))"
proof (induction ls arbitrary: tr)
  case Nil
  then show ?case by simp
next
  case (Cons a ls)
  have "prefix tr (tr @ [WaitPresence a t])" by simp
  also have "prefix (tr @ [WaitPresence a t]) (snd (try_multiple_locators d ls t (tr @ [WaitPresence a t])))"
    by (rule Cons.IH)
  finally show ?case by (simp split: sum.splits)
qed

lemma click_element_robust_prefix: "prefix tr (snd (click_element_robust d e tr))"
  by (simp add: click_element_robust_def split: option.splits)

lemma select_task_loop_prefix: "prefix tr (snd (select_task_loop d c ls tr))"
proof (induction ls arbitrary: tr)
  case Nil
  then show ?case by simp
next
  case (Cons l ls)
  let ?t1 = "tr @ [FindElementIn c l]"
  have p1: "prefix tr ?t1" by simp
  show ?case
  proof (cases "elem_find_element d tr c l")
    case (Inl x)
    with prefix_order.trans [OF p1 Cons.IH [of ?t1]] show ?thesis by simp
  next
    case (Inr e)
    obtain r t2 where c: "click_element_robust d e ?t1 = (r, t2)" by (cases "click_element_robust d e ?t1")
    have p2: "prefix ?t1 t2" using click_element_robust_prefix [of ?t1 d e] c by simp
    have p3: "prefix tr t2" using prefix_order.trans [OF p1 p2] .
    show ?thesis
    proof (cases r)
      case None
      with Inr c p3 show ?thesis by simp
    next
      case (Some x)
      with Inr c prefix_order.trans [OF p3 Cons.IH [of t2]] show ?thesis by simp
    qed
  qed
qed

lemma select_task_from_list_prefix: "prefix tr (snd (select_task_from_list d name tr))"
proof -
  obtain r t1 where c: "try_multiple_locators d task_container_locators 5000 tr = (r, t1)"
    by (cases "try_multiple_locators d task_container_locators 5000 tr")
  have p1: "prefix tr t1" using try_multiple_locators_prefix [of tr d task_container_locators 5000] c by simp
  show ?thesis
  proof (cases r)
    case None
    with c p1 show ?thesis by (simp add: select_task_from_list_def)
  next
    case (Some a)
    with c prefix_order.trans [OF p1 select_task_loop_prefix [of t1]] show ?thesis
      by (simp add: select_task_from_list_def)
  qed
qed

lemma click_resolved_prefix:
  "prefix tr (snd (case try_multiple_locators d ls t tr of
        (Some b, tr1) \<Rightarrow>
          (case click_element_robust d b tr1 of
             (None, tr2) \<Rightarrow> (Inr True, tr2)
           | (Some x, tr2) \<Rightarrow> (Inl x, tr2))
      | (None, tr1) \<Rightarrow> (Inr False :: exn + bool, tr1)))"
proof -
  obtain r t1 where c: "try_multiple_locators d ls t tr = (r, t1)"
    by (cases "try_multiple_locators d ls t tr")
  have p1: "prefix tr t1" using try_multiple_locators_prefix [of tr d ls t] c by simp
  show ?thesis
  proof (cases r)
    case None
    with c p1 show ?thesis by simp
  next
    case (Some b)
    obtain r2 t2 where c2: "click_element_robust d b t1 = (r2, t2)" by (cases "click_element_robust d b t1")
    have "prefix t1 t2" using click_element_robust_prefix [of t1 d b] c2 by simp
    with p1 have "prefix tr t2" by (rule prefix_order.trans)
    with Some c c2 show ?thesis by (simp split: option.splits)
  qed
qed

lemma click_task_icon_for_config_prefix: "prefix tr (snd (click_task_icon_for_config d tr))"
  unfolding click_task_icon_for_config_def by (rule click_resolved_prefix)

lemma click_execution_button_prefix: "prefix tr (snd (click_execution_button d tr))"
  unfolding click_execution_button_def by (rule click_resolved_prefix)

lemma click_confirm_button_prefix: "prefix tr (snd (click_confirm_button d tr))"
  unfolding click_confirm_button_def by (rule click_resolved_prefix)

lemma wait_for_element_prefix: "prefix tr (snd (wait_for_element d l t tr))"
  by (simp add: wait_for_element_def split: sum.splits)

lemma wait_for_element_first: "prefix (tr @ [WaitPresence l t]) (snd (wait_for_element d l t tr))"
  by (simp add: wait_for_element_def split: sum.splits)

lemma bind_prefix:
  assumes "\<And>tr. prefix tr (snd (m tr))" and "\<And>v tr. prefix tr (snd (f v tr))"
  shows "prefix tr (snd (bind m f tr))"
proof -
  obtain r t1 where c: "m tr = (r, t1)" by (cases "m tr")
  have p1: "prefix tr t1" using assms(1) [of tr] c by simp
  show ?thesis
  proof (cases r)
    case (Inl x)
    with c p1 show ?thesis by (simp add: bind_def)
  next
    case (Inr v)
    with c prefix_order.trans [OF p1 assms(2) [of t1 v]] show ?thesis by (simp add: bind_def)
  qed
qed

lemma ret_prefix: "prefix tr (snd (ret v tr))"
  by (simp add: ret_def)

lemma read_prefix:
  "prefix tr (snd (read_text d e tr))"
  "prefix tr (snd (read_is_displayed d e tr))"
  "prefix tr (snd (read_is_enabled d e tr))"
  by (simp_all add: read_text_def read_is_displayed_def read_is_enabled_def)

lemma click_or_script_prefix: "prefix tr (snd (click_or_script d b tr))"
  by (simp add: click_or_script_def split: option.splits)

lemma if_prefix:
  "prefix tr (snd (f tr)) \<Longrightarrow> prefix tr (snd (g tr)) \<Longrightarrow> prefix tr (snd ((if c then f else g) tr))"
  by simp

lemma continue_button_body_prefix: "prefix tr (snd (continue_button_body d b tr))"
  unfolding continue_button_body_def
  by (intro bind_prefix if_prefix read_prefix ret_prefix click_or_script_prefix)

lemma continue_button_loop_prefix: "prefix tr (snd (continue_button_loop d bs tr))"
proof (induction bs arbitrary: tr)
  case Nil
  then show ?case by simp
next
  case (Cons b bs)
  obtain r t1 where c: "continue_button_body d b tr = (r, t1)" by (cases "continue_button_body d b tr")
  have p1: "prefix tr t1" using continue_button_body_prefix [of tr d b] c by simp
  have p2: "prefix tr (snd (continue_button_loop d bs t1))"
    using p1 Cons.IH [of t1] by (rule prefix_order.trans)
  from c p1 p2 show ?case by (simp split: sum.splits bool.splits)
qed

lemma click_continue_button_prefix: "prefix tr (snd (click_continue_button d tr))"
proof -
  let ?l = "(XPATH, container_xpath)"
  obtain r t1 where c: "wait_for_element d ?l 10000 tr = (r, t1)" by (cases "wait_for_element d ?l 10000 tr")
  have p1: "prefix tr t1" using wait_for_element_prefix [of tr d ?l 10000] c by simp
  show ?thesis
  proof (cases r)
    case None
    with c p1 show ?thesis by (simp add: click_continue_button_def)
  next
    case (Some container)
    let ?t2 = "t1 @ [FindElementsIn container (TAG_NAME, ''button'')]"
    have p2: "prefix tr ?t2" using p1 by (auto simp: prefix_def)
    have p3: "\<And>bs. prefix tr (snd (continue_button_loop d bs ?t2))"
      using p2 continue_button_loop_prefix [of ?t2] by (rule prefix_order.trans)
    from Some c p2 p3 show ?thesis by (simp add: click_continue_button_def split: sum.splits)
  qed
qed

lemma set_field_prefix:
  "prefix tr (snd (case wait_for_element d l 15000 tr of
        (None, tr1) \<Rightarrow> (False, tr1)
      | (Some el, tr1) \<Rightarrow>
          (case elem_click d tr1 el of
             Some _ \<Rightarrow> (False, tr1 @ [Click el])
           | None \<Rightarrow>
               (case perform d (tr1 @ [Click el]) ks of
                  Some _ \<Rightarrow> (False, tr1 @ [Click el, Perform ks])
                | None \<Rightarrow> (True, tr1 @ [Click el, Perform ks])))))"
  by (auto simp: wait_for_element_def split: sum.splits option.splits)

lemma set_speed_value_prefix: "prefix tr (snd (set_speed_value d v tr))"
  unfolding set_speed_value_def using set_field_prefix [where tr = tr and d = d and l = "(XPATH, speed_input_xpath)" and ks = "type_value v"]
  by simp

lemma set_force_value_prefix: "prefix tr (snd (set_force_value d v tr))"
  unfolding set_force_value_def by (rule set_field_prefix)

lemma set_load_value_prefix: "prefix tr (snd (set_load_value d v tr))"
  unfolding set_load_value_def by (rule set_field_prefix)

lemma poll_once_first: "prefix (tr @ [FindElement ready_locator]) (snd (poll_once d tr))"
proof -
  let ?t0 = "tr @ [FindElement ready_locator]"
  obtain r t1 where c: "try_multiple_locators d completion_button_locators 500 ?t0 = (r, t1)"
    by (cases "try_multiple_locators d completion_button_locators 500 ?t0")
  have p1: "prefix ?t0 t1" using try_multiple_locators_prefix [of ?t0 d completion_button_locators 500] c by simp
  then obtain ys where "t1 = ?t0 @ ys" by (auto simp: prefix_def)
  with c show ?thesis
    by (simp add: poll_once_def Let_def split: sum.splits option.splits)
qed

lemma poll_once_prefix: "prefix tr (snd (poll_once d tr))"
  using poll_once_first [of tr d] by (auto simp: prefix_def)

lemma completion_loop_prefix: "prefix tr (snd (completion_loop d n tr))"
proof (induction n arbitrary: tr)
  case 0
  then show ?case by simp
next
  case (Suc n)
  obtain r t1 where c: "poll_once d tr = (r, t1)" by (cases "poll_once d tr")
  have p1: "prefix tr t1" using poll_once_prefix [of tr d] c by simp
  then have "prefix tr (t1 @ [Sleep 500])" by (auto simp: prefix_def)
  then have "prefix tr (snd (completion_loop d n (t1 @ [Sleep 500])))"
    using Suc.IH [of "t1 @ [Sleep 500]"] by (rule prefix_order.trans)
  with c p1 show ?case by (simp split: bool.splits)
qed

lemma completion_loop_first:
  "0 < n \<Longrightarrow> prefix (tr @ [FindElement ready_locator]) (snd (completion_loop d n tr))"
proof (cases n)
  case 0
  assume "0 < n" with 0 show ?thesis by simp
next
  case (Suc m)
  let ?t0 = "tr @ [FindElement ready_locator]"
  obtain r t1 where c: "poll_once d tr = (r, t1)" by (cases "poll_once d tr")
  have p1: "prefix ?t0 t1" using poll_once_first [of tr d] c by simp
  then have "prefix ?t0 (t1 @ [Sleep 500])" by (auto simp: prefix_def)
  then have "prefix ?t0 (snd (completion_loop d m (t1 @ [Sleep 500])))"
    using completion_loop_prefix [of "t1 @ [Sleep 500]" d m] by (rule prefix_order.trans)
  with c p1 Suc show ?thesis by (simp split: bool.splits)
qed

lemma wait_for_task_completion_prefix: "prefix tr (snd (wait_for_task_completion d timeout tr))"
  unfolding wait_for_task_completion_def by (rule completion_loop_prefix)

lemma wait_for_task_completion_first:
  "0 < timeout \<Longrightarrow> prefix (tr @ [FindElement ready_locator]) (snd (wait_for_task_completion d timeout tr))"
  unfolding wait_for_task_completion_def by (rule completion_loop_first) simp

lemma unless_false_prefix:
  assumes "prefix tr (snd step)" and "\<And>tr'. prefix tr' (snd (rest tr'))"
  shows "prefix tr (snd (unless_false step rest))"
proof -
  obtain r t1 where c: "step = (r, t1)" by (cases step)
  have p1: "prefix tr t1" using assms(1) c by simp
  have p2: "prefix tr (snd (rest t1))" using p1 assms(2) [of t1] by (rule prefix_order.trans)
  from c p1 p2 show ?thesis by (simp add: unless_false_def split: sum.splits)
qed

lemma returns_prefix: "prefix tr (snd r) \<Longrightarrow> prefix tr (snd (returns r))"
  by (simp add: returns_def)

lemma done_prefix: "prefix tr (snd (Inr True :: exn + bool, tr))"
  by simp

lemma except_Exception_snd: "snd (except_Exception r) = snd r"
  by (cases r) (simp add: except_Exception_def split: sum.splits)

lemma configure_close_script_prefix:
  "prefix tr0 (snd (
     unless_false (returns (select_task_from_list d ''Gripper_close'' tr0)) (\<lambda>tr1.
     unless_false (click_task_icon_for_config d tr1) (\<lambda>tr2.
     unless_false (returns (click_continue_button d tr2)) (\<lambda>tr3.
     unless_false (returns (set_speed_value d speed tr3)) (\<lambda>tr4.
     unless_false (returns (click_continue_button d tr4)) (\<lambda>tr5.
     unless_false (returns (set_force_value d force tr5)) (\<lambda>tr6.
     unless_false (returns (click_continue_button d tr6)) (\<lambda>tr7.
     unless_false (returns (set_load_value d load tr7)) (\<lambda>tr8.
     unless_false (returns (click_continue_button d tr8)) (\<lambda>tr9.
     (Inr True, tr9))))))))))))"
  by (intro unless_false_prefix returns_prefix done_prefix select_task_from_list_prefix
        click_task_icon_for_config_prefix click_continue_button_prefix set_speed_value_prefix
        set_force_value_prefix set_load_value_prefix)

lemma configure_gripper_close_first:
  assumes "10 \<le> speed" "speed \<le> 100" "20 \<le> force" "force \<le> 100" "10 \<le> load" "load \<le> 1000"
  shows "prefix (tr @ [FindElement ready_locator]) (snd (configure_gripper_close d speed force load tr))"
proof -
  obtain r t0 where c: "wait_for_task_completion d 10 tr = (r, t0)"
    by (cases "wait_for_task_completion d 10 tr")
  have p1: "prefix (tr @ [FindElement ready_locator]) t0"
    using wait_for_task_completion_first [of 10 tr d] c by simp
  from p1 configure_close_script_prefix [of t0 d speed force load]
  have "prefix (tr @ [FindElement ready_locator]) (snd (
     unless_false (returns (select_task_from_list d ''Gripper_close'' t0)) (\<lambda>tr1.
     unless_false (click_task_icon_for_config d tr1) (\<lambda>tr2.
     unless_false (returns (click_continue_button d tr2)) (\<lambda>tr3.
     unless_false (returns (set_speed_value d speed tr3)) (\<lambda>tr4.
     unless_false (returns (click_continue_button d tr4)) (\<lambda>tr5.
     unless_false (returns (set_force_value d force tr5)) (\<lambda>tr6.
     unless_false (returns (click_continue_button d tr6)) (\<lambda>tr7.
     unless_false (returns (set_load_value d load tr7)) (\<lambda>tr8.
     unless_false (returns (click_continue_button d tr8)) (\<lambda>tr9.
     (Inr True, tr9))))))))))))"
    by (rule prefix_order.trans)
  with assms c show ?thesis
    by (simp add: configure_gripper_close_def except_Exception_snd)
qed

section \<open>Parameter validation\<close>

lemma configure_gripper_close_rejects:
  "\<not> (10 \<le> speed \<and> speed \<le> 100 \<and> 20 \<le> force \<and> force \<le> 100 \<and> 10 \<le> load \<and> load \<le> 1000)
   \<Longrightarrow> configure_gripper_close d speed force load tr = (False, tr)"
  by (auto simp: configure_gripper_close_def)

lemma set_speed_value_first:
  "10 \<le> speed \<Longrightarrow> speed \<le> 100 \<Longrightarrow>
   prefix (tr @ [WaitPresence (XPATH, speed_input_xpath) 15000]) (snd (set_speed_value d speed tr))"
  by (auto simp: set_speed_value_def wait_for_element_def split: sum.splits option.splits)

lemma not_prefix_snoc: "prefix (tr @ [a]) tr' \<Longrightarrow> tr' \<noteq> tr"
  by (auto simp: prefix_def)

text \<open>
  Claim C2. Validation is by inclusive ranges. \<open>set_speed_value\<close> returns false without
  any interaction with the browser exactly when the speed is below 10 or above 100, and
  goes on to its first interaction (the wait for the speed field) exactly when the speed is
  in [10, 100]; so 9 and 101 are rejected, 10 and 100 accepted. \<open>configure_gripper_close\<close>
  returns false without any interaction exactly when the speed is outside [10, 100], the
  force outside [20, 100] or the load outside [10, 1000], and goes on to its first
  interaction (the completion poll) exactly when all three are inside.
\<close>

theorem validation_inclusive_ranges:
  "((set_speed_value d speed tr = (False, tr)) = (speed < 10 \<or> 100 < speed))
   \<and> ((10 \<le> speed \<and> speed \<le> 100) =
        prefix (tr @ [WaitPresence (XPATH, speed_input_xpath) 15000]) (snd (set_speed_value d speed tr)))
   \<and> ((configure_gripper_close d speed force load tr = (False, tr))
        = (speed < 10 \<or> 100 < speed \<or> force < 20 \<or> 100 < force \<or> load < 10 \<or> 1000 < load))
   \<and> ((10 \<le> speed \<and> speed \<le> 100 \<and> 20 \<le> force \<and> force \<le> 100 \<and> 10 \<le> load \<and> load \<le> 1000) =
        prefix (tr @ [FindElement ready_locator]) (snd (configure_gripper_close d speed force load tr)))"
proof (intro conjI)
  show s1: "(set_speed_value d speed tr = (False, tr)) = (speed < 10 \<or> 100 < speed)"
  proof
    assume a: "set_speed_value d speed tr = (False, tr)"
    show "speed < 10 \<or> 100 < speed"
    proof (rule ccontr)
      assume "\<not> (speed < 10 \<or> 100 < speed)"
      then have "10 \<le> speed" "speed \<le> 100" by auto
      from not_prefix_snoc [OF set_speed_value_first [OF this, of tr d]] a show False by simp
    qed
  next
    assume "speed < 10 \<or> 100 < speed"
    then show "set_speed_value d speed tr = (False, tr)" by (auto simp: set_speed_value_def)
  qed
  show "(10 \<le> speed \<and> speed \<le> 100) =
        prefix (tr @ [WaitPresence (XPATH, speed_input_xpath) 15000]) (snd (set_speed_value d speed tr))"
  proof
    assume "10 \<le> speed \<and> speed \<le> 100"
    then show "prefix (tr @ [WaitPresence (XPATH, speed_input_xpath) 15000]) (snd (set_speed_value d speed tr))"
      using set_speed_value_first by blast
  next
    assume p: "prefix (tr @ [WaitPresence (XPATH, speed_input_xpath) 15000]) (snd (set_speed_value d speed tr))"
    show "10 \<le> speed \<and> speed \<le> 100"
    proof (rule ccontr)
      assume "\<not> (10 \<le> speed \<and> speed \<le> 100)"
      then have "snd (set_speed_value d speed tr) = tr" by (auto simp: set_speed_value_def)
      with not_prefix_snoc [OF p] show False by simp
    qed
  qed
  show c1: "(configure_gripper_close d speed force load tr = (False, tr))
        = (speed < 10 \<or> 100 < speed \<or> force < 20 \<or> 100 < force \<or> load < 10 \<or> 1000 < load)"
  proof
    assume a: "configure_gripper_close d speed force load tr = (False, tr)"
    show "speed < 10 \<or> 100 < speed \<or> force < 20 \<or> 100 < force \<or> load < 10 \<or> 1000 < load"
    proof (rule ccontr)
      assume "\<not> (speed < 10 \<or> 100 < speed \<or> force < 20 \<or> 100 < force \<or> load < 10 \<or> 1000 < load)"
      then have "10 \<le> speed" "speed \<le> 100" "20 \<le> force" "force \<le> 100" "10 \<le> load" "load \<le> 1000" by auto
      from not_prefix_snoc [OF configure_gripper_close_first [OF this, of tr d]] a show False by simp
    qed
  next
    assume "speed < 10 \<or> 100 < speed \<or> force < 20 \<or> 100 < force \<or> load < 10 \<or> 1000 < load"
    then show "configure_gripper_close d speed force load tr = (False, tr)"
      by (intro configure_gripper_close_rejects) auto
  qed
  show "(10 \<le> speed \<and> speed \<le> 100 \<and> 20 \<le> force \<and> force \<le> 100 \<and> 10 \<le> load \<and> load \<le> 1000) =
        prefix (tr @ [FindElement ready_locator]) (snd (configure_gripper_close d speed force load tr))"
  proof
    assume "10 \<le> speed \<and> speed \<le> 100 \<and> 20 \<le> force \<and> force \<le> 100 \<and> 10 \<le> load \<and> load \<le> 1000"
    then show "prefix (tr @ [FindElement ready_locator]) (snd (configure_gripper_close d speed force load tr))"
      using configure_gripper_close_first by blast
  next
    assume p: "prefix (tr @ [FindElement ready_locator]) (snd (configure_gripper_close d speed force load tr))"
    show "10 \<le> speed \<and> speed \<le> 100 \<and> 20 \<le> force \<and> force \<le> 100 \<and> 10 \<le> load \<and> load \<le> 1000"
    proof (rule ccontr)
      assume "\<not> (10 \<le> speed \<and> speed \<le> 100 \<and> 20 \<le> force \<and> force \<le> 100 \<and> 10 \<le> load \<and> load \<le> 1000)"
      from configure_gripper_close_rejects [OF this, of d tr] not_prefix_snoc [OF p] show False by simp
    qed
  qed
qed

theorem validation_inclusive_ranges_witness:
  "set_speed_value silent_browser 9 [] = (False, [])
   \<and> set_speed_value silent_browser 101 [] = (False, [])
   \<and> set_speed_value silent_browser 10 [] \<noteq> (False, [])
   \<and> set_speed_value silent_browser 100 [] \<noteq> (False, [])
   \<and> configure_gripper_close silent_browser 10 20 10 [] \<noteq> (False, [])
   \<and> configure_gripper_close silent_browser 100 100 1000 [] \<noteq> (False, [])
   \<and> configure_gripper_close silent_browser 50 19 400 [] = (False, [])
   \<and> configure_gripper_close silent_browser 50 101 400 [] = (False, [])
   \<and> configure_gripper_close silent_browser 50 80 9 [] = (False, [])
   \<and> configure_gripper_close silent_browser 50 80 1001 [] = (False, [])"
  using validation_inclusive_ranges [of silent_browser 9 "[]" 19 400]
    validation_inclusive_ranges [of silent_browser 101 "[]" 101 400]
    validation_inclusive_ranges [of silent_browser 10 "[]" 20 10]
    validation_inclusive_ranges [of silent_browser 100 "[]" 100 1000]
    validation_inclusive_ranges [of silent_browser 50 "[]" 19 400]
    validation_inclusive_ranges [of silent_browser 50 "[]" 101 400]
    validation_inclusive_ranges [of silent_browser 50 "[]" 80 9]
    validation_inclusive_ranges [of silent_browser 50 "[]" 80 1001]
  by simp

text \<open>
  Claim C3. When any of speed, force or load is out of its range, \<open>configure_gripper_close\<close>
  returns false with the trace unchanged: neither the completion poll nor the task
  selection nor any other interaction with the browser was attempted.
\<close>

theorem configure_gripper_close_fails_fast:
  "\<not> (10 \<le> speed \<and> speed \<le> 100) \<or> \<not> (20 \<le> force \<and> force \<le> 100) \<or> \<not> (10 \<le> load \<and> load \<le> 1000)
   \<Longrightarrow> configure_gripper_close d speed force load tr = (False, tr)"
  by (auto simp: configure_gripper_close_def)

theorem configure_gripper_close_fails_fast_witness:
  "configure_gripper_close cooperative_browser 50 150 400 [] = (False, [])"
  using configure_gripper_close_fails_fast [of 50 150 400 cooperative_browser "[]"] by simp

section \<open>The completion poll\<close>

lemma iteration_start_shift:
  "iteration_start d (snd (poll_once d tr) @ [Sleep 500]) k = iteration_start d tr (Suc k)"
  by (induction k) simp_all

lemma completion_loop_false:
  "\<forall>k<n. \<not> fst (poll_once d (iteration_start d tr k)) \<Longrightarrow>
   completion_loop d n tr = (False, iteration_start d tr n)"
proof (induction n arbitrary: tr)
  case 0
  then show ?case by simp
next
  case (Suc n)
  obtain r t1 where c: "poll_once d tr = (r, t1)" by (cases "poll_once d tr")
  from Suc.prems have "\<not> fst (poll_once d (iteration_start d tr 0))" by blast
  with c have r: "\<not> r" by simp
  have "\<forall>k<n. \<not> fst (poll_once d (iteration_start d (t1 @ [Sleep 500]) k))"
  proof (intro allI impI)
    fix k assume "k < n"
    then have "\<not> fst (poll_once d (iteration_start d tr (Suc k)))"
      using Suc.prems [rule_format, of "Suc k"] by simp
    then show "\<not> fst (poll_once d (iteration_start d (t1 @ [Sleep 500]) k))"
      using iteration_start_shift [of d tr k] c by simp
  qed
  from Suc.IH [OF this] have "completion_loop d n (t1 @ [Sleep 500]) = (False, iteration_start d tr (Suc n))"
    using iteration_start_shift [of d tr n] c by simp
  with c r show ?case by simp
qed

lemma completion_loop_true:
  "k < n \<Longrightarrow> \<forall>j<k. \<not> fst (poll_once d (iteration_start d tr j)) \<Longrightarrow>
   fst (poll_once d (iteration_start d tr k)) \<Longrightarrow>
   completion_loop d n tr = (True, snd (poll_once d (iteration_start d tr k)))"
proof (induction n arbitrary: tr k)
  case 0
  then show ?case by simp
next
  case (Suc n)
  obtain r t1 where c: "poll_once d tr = (r, t1)" by (cases "poll_once d tr")
  show ?case
  proof (cases k)
    case 0
    with Suc.prems(3) c show ?thesis by simp
  next
    case (Suc m)
    from Suc.prems(2) Suc have "\<not> fst (poll_once d (iteration_start d tr 0))" by blast
    with c have r: "\<not> r" by simp
    have m: "m < n" using Suc.prems(1) Suc by simp
    have e: "\<forall>j<m. \<not> fst (poll_once d (iteration_start d (t1 @ [Sleep 500]) j))"
    proof (intro allI impI)
      fix j assume "j < m"
      then have "\<not> fst (poll_once d (iteration_start d tr (Suc j)))"
        using Suc.prems(2) [rule_format, of "Suc j"] Suc by simp
      then show "\<not> fst (poll_once d (iteration_start d (t1 @ [Sleep 500]) j))"
        using iteration_start_shift [of d tr j] c by simp
    qed
    have l: "fst (poll_once d (iteration_start d (t1 @ [Sleep 500]) m))"
      using Suc.prems(3) Suc iteration_start_shift [of d tr m] c by simp
    from Suc.IH [OF m e l] have "completion_loop d n (t1 @ [Sleep 500]) = (True, snd (poll_once d (iteration_start d tr k)))"
      using iteration_start_shift [of d tr m] c Suc by simp
    with c r show ?thesis by simp
  qed
qed

lemma poll_once_complete_iff:
  "fst (poll_once d s) =
     (\<exists>r e s1 cls txt.
        find_element d s ready_locator = Inr r
      \<and> try_multiple_locators d completion_button_locators 500 (s @ [FindElement ready_locator]) = (Some e, s1)
      \<and> get_attribute d s1 e ''class'' = Inr cls
      \<and> elem_text d (s1 @ [GetAttribute e ''class'']) e = Inr txt
      \<and> \<not> py_in ''stop'' (or_empty cls) \<and> \<not> py_in ''stop'' (lower txt))"
proof -
  obtain b s1 where c: "try_multiple_locators d completion_button_locators 500 (s @ [FindElement ready_locator]) = (b, s1)"
    by (cases "try_multiple_locators d completion_button_locators 500 (s @ [FindElement ready_locator])")
  show ?thesis
    using c by (auto simp: poll_once_def Let_def split: sum.splits option.splits)
qed

lemma poll_once_needs_button:
  "fst (poll_once d s) \<Longrightarrow>
   \<exists>e s1. try_multiple_locators d completion_button_locators 500 (s @ [FindElement ready_locator]) = (Some e, s1)"
  using poll_once_complete_iff [of d s] by blast

lemma least_index:
  fixes P :: "nat \<Rightarrow> bool"
  assumes "k < n" "P k"
  shows "\<exists>m<n. P m \<and> (\<forall>j<m. \<not> P j)"
proof -
  from assms(2) have "\<exists>i. P i" ..
  then obtain m where m: "P m" "\<forall>j<m. \<not> P j"
    unfolding exists_least_iff [of P] by blast
  have "\<not> k < m" using m(2) assms(2) by blast
  then have "m < n" using assms(1) by simp
  with m show ?thesis by blast
qed


text \<open>
  The loop returns true exactly when one of its iterations is complete, at the first such
  iteration, and false after its last iteration otherwise.
\<close>

lemma completion_loop_cases:
  assumes "completion_loop d n tr = (b, tr')"
  shows "(b = (\<exists>k<n. fst (poll_once d (iteration_start d tr k))))
     \<and> (b \<longrightarrow> (\<exists>k<n. fst (poll_once d (iteration_start d tr k))
                 \<and> (\<forall>j<k. \<not> fst (poll_once d (iteration_start d tr j)))
                 \<and> tr' = snd (poll_once d (iteration_start d tr k))))
     \<and> (\<not> b \<longrightarrow> tr' = iteration_start d tr n)"
proof (cases "\<exists>k<n. fst (poll_once d (iteration_start d tr k))")
  case True
  let ?P = "\<lambda>k. fst (poll_once d (iteration_start d tr k))"
  from True obtain k where "k < n" "?P k" by blast
  from least_index [of k n ?P, OF this] obtain m where m: "m < n" "?P m" "\<forall>j<m. \<not> ?P j" by blast
  from completion_loop_true [OF m(1) m(3) m(2)] assms
  have "b" "tr' = snd (poll_once d (iteration_start d tr m))" by simp_all
  with m True show ?thesis by blast
next
  case False
  then have "\<forall>k<n. \<not> fst (poll_once d (iteration_start d tr k))" by blast
  from completion_loop_false [OF this] assms have "\<not> b" "tr' = iteration_start d tr n" by simp_all
  with False show ?thesis by blast
qed

text \<open>
  Claim C4, amended. \<open>wait_for_task_completion\<close> is a bounded poll: it runs the polling
  iterations of its loop until one of them is complete. It returns true exactly when one
  of them is complete, and then it returns in the first complete iteration; when the loop
  ends with no iteration complete, it returns false. An iteration is complete when the
  Ready text is found, the execution button resolves, its class attribute and its text
  can be read, the class attribute lacks the substring stop and the text, in lower case,
  lacks the substring stop.
\<close>

theorem completion_poll_first_ready_iteration:
  assumes "wait_for_task_completion d timeout tr = (b, tr')"
  shows "(b = (\<exists>k<nat (timeout * 2). fst (poll_once d (iteration_start d tr k))))
   \<and> (b \<longrightarrow> (\<exists>k<nat (timeout * 2). fst (poll_once d (iteration_start d tr k))
               \<and> (\<forall>j<k. \<not> fst (poll_once d (iteration_start d tr j)))
               \<and> tr' = snd (poll_once d (iteration_start d tr k))))
   \<and> (\<not> b \<longrightarrow> tr' = iteration_start d tr (nat (timeout * 2)))
   \<and> (\<forall>s. fst (poll_once d s) =
         (\<exists>r e s1 cls txt.
            find_element d s ready_locator = Inr r
          \<and> try_multiple_locators d completion_button_locators 500 (s @ [FindElement ready_locator]) = (Some e, s1)
          \<and> get_attribute d s1 e ''class'' = Inr cls
          \<and> elem_text d (s1 @ [GetAttribute e ''class'']) e = Inr txt
          \<and> \<not> py_in ''stop'' (or_empty cls) \<and> \<not> py_in ''stop'' (lower txt)))"
proof -
  have loop: "completion_loop d (nat (timeout * 2)) tr = (b, tr')"
    using assms by (simp add: wait_for_task_completion_def)
  from completion_loop_cases [OF loop] poll_once_complete_iff [of d] show ?thesis by blast
qed

lemma lower_examples: "lower ''Stop'' = ''stop''" "lower ''Run'' = ''run''" "lower ''STOP'' = ''stop''"
  by (simp_all add: lower_def lower_char_def)

lemma strip_example: "strip ''  Continue  '' = ''Continue''"
  by (simp add: strip_def is_space_def whitespace_def)

lemma shouting_never_complete: "\<not> fst (poll_once shouting_browser s)"
  by (simp add: poll_once_def shouting_browser_def cooperative_browser_def
        completion_button_locators_def or_empty_def lower_examples)

text \<open>
  Claim C4 as stated fails: with the Ready text present and a resolved execution button
  whose class is \<open>play\<close> and whose text is \<open>STOP\<close>, the class and the text both lack the
  substring \<open>stop\<close> in the very first iteration, yet the poll returns false: the source
  compares the text in lower case.
\<close>

theorem completion_poll_case_sensitive_counterexample:
  "find_element shouting_browser [] ready_locator = Inr 2
   \<and> try_multiple_locators shouting_browser completion_button_locators 500 [FindElement ready_locator]
       = (Some 1, [FindElement ready_locator, WaitPresence (completion_button_locators ! 0) 500])
   \<and> get_attribute shouting_browser
        [FindElement ready_locator, WaitPresence (completion_button_locators ! 0) 500] 1 ''class''
       = Inr (Some ''play'')
   \<and> elem_text shouting_browser
        [FindElement ready_locator, WaitPresence (completion_button_locators ! 0) 500,
         GetAttribute 1 ''class''] 1
       = Inr ''STOP''
   \<and> \<not> py_in ''stop'' ''play'' \<and> \<not> py_in ''stop'' ''STOP''
   \<and> fst (wait_for_task_completion shouting_browser 30 []) = False"
proof -
  have "\<forall>k<nat (30 * 2). \<not> fst (poll_once shouting_browser (iteration_start shouting_browser [] k))"
    using shouting_never_complete by blast
  from completion_loop_false [OF this]
  have "fst (wait_for_task_completion shouting_browser 30 []) = False"
    by (simp add: wait_for_task_completion_def)
  moreover have "try_multiple_locators shouting_browser completion_button_locators 500 [FindElement ready_locator]
       = (Some 1, [FindElement ready_locator, WaitPresence (completion_button_locators ! 0) 500])"
    by (simp add: completion_button_locators_def shouting_browser_def cooperative_browser_def)
  ultimately show ?thesis
    by (simp add: shouting_browser_def cooperative_browser_def)
qed

lemma finishing_poll:
  "wait_for_task_completion finishing_browser 1 [] =
     (True,
      [FindElement ready_locator, WaitPresence (completion_button_locators ! 0) 500,
       GetAttribute 1 ''class'', GetText 1, Sleep 500,
       FindElement ready_locator, WaitPresence (completion_button_locators ! 0) 500,
       GetAttribute 1 ''class'', GetText 1])"
proof -
  have n: "nat (1 * 2) = Suc (Suc 0)" by simp
  show ?thesis
    unfolding wait_for_task_completion_def n
    by (simp add: poll_once_def finishing_browser_def cooperative_browser_def
          completion_button_locators_def or_empty_def lower_examples)
qed

lemma running_poll:
  "wait_for_task_completion running_browser 1 [] =
     (False,
      [FindElement ready_locator, WaitPresence (completion_button_locators ! 0) 500,
       GetAttribute 1 ''class'', GetText 1, Sleep 500,
       FindElement ready_locator, WaitPresence (completion_button_locators ! 0) 500,
       GetAttribute 1 ''class'', GetText 1, Sleep 500])"
proof -
  have n: "nat (1 * 2) = Suc (Suc 0)" by simp
  show ?thesis
    unfolding wait_for_task_completion_def n
    by (simp add: poll_once_def running_browser_def cooperative_browser_def
          completion_button_locators_def or_empty_def lower_examples)
qed

theorem completion_poll_first_ready_iteration_witness:
  "wait_for_task_completion finishing_browser 1 [] =
     (True,
      [FindElement ready_locator, WaitPresence (completion_button_locators ! 0) 500,
       GetAttribute 1 ''class'', GetText 1, Sleep 500,
       FindElement ready_locator, WaitPresence (completion_button_locators ! 0) 500,
       GetAttribute 1 ''class'', GetText 1])
   \<and> (\<exists>k<nat (1 * 2). fst (poll_once finishing_browser (iteration_start finishing_browser [] k))
          \<and> (\<forall>j<k. \<not> fst (poll_once finishing_browser (iteration_start finishing_browser [] j))))
   \<and> fst (wait_for_task_completion running_browser 1 []) = False
   \<and> \<not> (\<exists>k<nat (1 * 2). fst (poll_once running_browser (iteration_start running_browser [] k)))"
proof -
  from completion_poll_first_ready_iteration [OF finishing_poll]
  have a: "\<exists>k<nat (1 * 2). fst (poll_once finishing_browser (iteration_start finishing_browser [] k))
          \<and> (\<forall>j<k. \<not> fst (poll_once finishing_browser (iteration_start finishing_browser [] j)))"
    by blast
  from completion_poll_first_ready_iteration [OF running_poll]
  have b: "\<not> (\<exists>k<nat (1 * 2). fst (poll_once running_browser (iteration_start running_browser [] k)))"
    by blast
  have c: "fst (wait_for_task_completion running_browser 1 []) = False" by (simp add: running_poll)
  from a b c finishing_poll show ?thesis by blast
qed

lemma try_multiple_locators_never:
  assumes "\<And>s l. l \<in> set ls \<Longrightarrow> isl (until_presence d s l t)"
  shows "fst (try_multiple_locators d ls t tr) = None"
  using assms
proof (induction ls arbitrary: tr)
  case Nil
  then show ?case by simp
next
  case (Cons a ls)
  have "isl (until_presence d tr a t)" using Cons.prems by simp
  then obtain x where x: "until_presence d tr a t = Inl x" by (cases "until_presence d tr a t") auto
  have "fst (try_multiple_locators d ls t (tr @ [WaitPresence a t])) = None"
    using Cons.prems by (intro Cons.IH) simp
  with x show ?case by simp
qed

lemma no_button_never_complete:
  assumes "\<forall>s. \<forall>l\<in>set completion_button_locators. isl (until_presence d s l 500)"
  shows "\<not> fst (poll_once d s)"
proof
  assume "fst (poll_once d s)"
  from poll_once_needs_button [OF this] obtain e s1 where
    "try_multiple_locators d completion_button_locators 500 (s @ [FindElement ready_locator]) = (Some e, s1)"
    by blast
  moreover have "fst (try_multiple_locators d completion_button_locators 500 (s @ [FindElement ready_locator])) = None"
    using assms by (intro try_multiple_locators_never) blast
  ultimately show False by simp
qed


lemma buttonless_never:
  "\<forall>s. \<forall>l\<in>set completion_button_locators. isl (until_presence buttonless_browser s l 500)"
  by (simp add: buttonless_browser_def cooperative_browser_def)

lemma buttonless_trace:
  "iteration_start buttonless_browser [] (nat (1 * 2)) =
          [FindElement ready_locator, WaitPresence (completion_button_locators ! 0) 500,
           WaitPresence (completion_button_locators ! 1) 500, Sleep 500,
           FindElement ready_locator, WaitPresence (completion_button_locators ! 0) 500,
           WaitPresence (completion_button_locators ! 1) 500, Sleep 500]"
proof -
  have n: "nat (1 * 2) = Suc (Suc 0)" by simp
  show ?thesis
    unfolding n
    by (simp add: poll_once_def buttonless_browser_def cooperative_browser_def
          completion_button_locators_def)
qed


text \<open>
  The time the poll takes is not bounded by its timeout. In the session whose waits all
  time out, a poll with a timeout of one second is given three: each of its two iterations
  waits half a second for each of the two button locators and then sleeps half a second.
\<close>

lemma completion_poll_outlasts_timeout:
  "wait_for_task_completion buttonless_browser 1 [] = (False, iteration_start buttonless_browser [] (nat (1 * 2)))
   \<and> trace_ms (iteration_start buttonless_browser [] (nat (1 * 2))) = 3000"
proof -
  have "\<forall>k<nat (1 * 2). \<not> fst (poll_once buttonless_browser (iteration_start buttonless_browser [] k))"
    using no_button_never_complete [OF buttonless_never] by blast
  from completion_loop_false [OF this]
  have "wait_for_task_completion buttonless_browser 1 [] = (False, iteration_start buttonless_browser [] (nat (1 * 2)))"
    by (simp add: wait_for_task_completion_def)
  moreover have "trace_ms (iteration_start buttonless_browser [] (nat (1 * 2))) = 3000"
    unfolding buttonless_trace by (simp add: trace_ms_def)
  ultimately show ?thesis by simp
qed

section \<open>The gripper commands\<close>

lemma completion_loop_unroll:
  "0 < n \<Longrightarrow> completion_loop d n tr =
     (case poll_once d tr of
        (True, tr') \<Rightarrow> (True, tr')
      | (False, tr') \<Rightarrow> completion_loop d (n - 1) (tr' @ [Sleep 500]))"
  by (cases n) (auto split: prod.splits bool.splits)

lemma try_multiple_locators_first_attempt:
  "prefix (tr @ [WaitPresence l t]) (snd (try_multiple_locators d (l # ls) t tr))"
  using try_multiple_locators_prefix [of "tr @ [WaitPresence l t]" d ls t]
  by (simp split: sum.splits)

lemma select_task_from_list_first:
  "prefix (tr @ [WaitPresence (hd task_container_locators) 5000]) (snd (select_task_from_list d name tr))"
proof -
  let ?t0 = "tr @ [WaitPresence (hd task_container_locators) 5000]"
  obtain r t1 where c: "try_multiple_locators d task_container_locators 5000 tr = (r, t1)"
    by (cases "try_multiple_locators d task_container_locators 5000 tr")
  have "task_container_locators = hd task_container_locators # tl task_container_locators"
    by (simp add: task_container_locators_def)
  then have p1: "prefix ?t0 t1"
    using try_multiple_locators_first_attempt [of tr "hd task_container_locators" 5000 d "tl task_container_locators"] c
    by simp
  show ?thesis
  proof (cases r)
    case None
    with c p1 show ?thesis by (simp add: select_task_from_list_def)
  next
    case (Some a)
    with c prefix_order.trans [OF p1 select_task_loop_prefix [of t1]] show ?thesis
      by (simp add: select_task_from_list_def)
  qed
qed

text \<open>
  In every session the first interaction of \<open>gripper_open\<close> is the lookup of the task
  container.
\<close>

lemma gripper_open_first_interaction:
  "prefix (tr @ [WaitPresence (hd task_container_locators) 5000]) (snd (gripper_open d tr))"
  unfolding gripper_open_def
  by (intro unless_false_prefix returns_prefix done_prefix select_task_from_list_first
        click_execution_button_prefix click_confirm_button_prefix wait_for_task_completion_prefix)

lemma finishing_select:
  "select_task_from_list finishing_browser name [] =
     (True, [WaitPresence (task_container_locators ! 0) 5000,
             FindElementIn 1 (task_locators name ! 0), Click 3])"
  by (simp add: select_task_from_list_def task_container_locators_def task_locators_def
        click_element_robust_def finishing_browser_def cooperative_browser_def)

text \<open>
  Claim C5. The claim gives \<open>gripper_open\<close> a best-effort wait for an in-flight task
  before the task selection. The source has this wait in \<open>gripper_close\<close>, whose first
  interaction is the completion poll, but not in \<open>gripper_open\<close>: in a session whose
  execution button still shows Stop, \<open>gripper_open\<close> begins with the lookup of the task
  container and selects, starts and confirms the task before any poll; only the final poll
  follows.
\<close>

theorem gripper_open_skips_initial_wait:
  "gripper_open finishing_browser [] =
     (Inr True,
      [WaitPresence (task_container_locators ! 0) 5000,
       FindElementIn 1 (task_locators ''Gripper_open'' ! 0), Click 3,
       WaitPresence (execution_locators ! 0) 5000, Click 1,
       WaitPresence (confirm_locators ! 0) 10000, Click 1,
       FindElement ready_locator, WaitPresence (completion_button_locators ! 0) 500,
       GetAttribute 1 ''class'', GetText 1, Sleep 500,
       FindElement ready_locator, WaitPresence (completion_button_locators ! 0) 500,
       GetAttribute 1 ''class'', GetText 1])
   \<and> elem_text finishing_browser [] 1 = Inr ''Stop''
   \<and> hd (snd (gripper_close finishing_browser [])) = FindElement ready_locator"
proof -
  have a: "gripper_open finishing_browser [] =
     (Inr True,
      [WaitPresence (task_container_locators ! 0) 5000,
       FindElementIn 1 (task_locators ''Gripper_open'' ! 0), Click 3,
       WaitPresence (execution_locators ! 0) 5000, Click 1,
       WaitPresence (confirm_locators ! 0) 10000, Click 1,
       FindElement ready_locator, WaitPresence (completion_button_locators ! 0) 500,
       GetAttribute 1 ''class'', GetText 1, Sleep 500,
       FindElement ready_locator, WaitPresence (completion_button_locators ! 0) 500,
       GetAttribute 1 ''class'', GetText 1])"
    unfolding gripper_open_def finishing_select wait_for_task_completion_def
    by (simp add: unless_false_def returns_def click_execution_button_def click_confirm_button_def
          execution_locators_def confirm_locators_def click_element_robust_def
          completion_loop_unroll
          poll_once_def completion_button_locators_def or_empty_def lower_examples
          finishing_browser_def cooperative_browser_def)
  have b: "elem_text finishing_browser [] 1 = Inr ''Stop''"
    by (simp add: finishing_browser_def cooperative_browser_def)
  obtain r t0 where w: "wait_for_task_completion finishing_browser 10 [] = (r, t0)"
    by (cases "wait_for_task_completion finishing_browser 10 []")
  have p0: "prefix ([] @ [FindElement ready_locator]) t0"
    using wait_for_task_completion_first [of 10 "[]" finishing_browser] w by simp
  have "prefix t0 (snd (gripper_close finishing_browser []))"
    unfolding gripper_close_def w
    by (simp, intro unless_false_prefix returns_prefix done_prefix select_task_from_list_prefix
          click_execution_button_prefix click_confirm_button_prefix wait_for_task_completion_prefix)
  with p0 have "prefix [FindElement ready_locator] (snd (gripper_close finishing_browser []))"
    by (metis append_Nil prefix_order.trans)
  then have c: "hd (snd (gripper_close finishing_browser [])) = FindElement ready_locator"
    by (auto simp: prefix_def)
  from a b c show ?thesis by simp
qed

section \<open>The network manager\<close>

text \<open>
  Claim C6. The claim says \<open>check_network_configured\<close> never raises. The source catches
  \<open>TimeoutExpired\<close> and \<open>SubprocessError\<close> only: when the \<open>ip\<close> program cannot be
  started, \<open>subprocess.run\<close> raises \<open>OSError\<close>, which leaves
  \<open>check_network_configured\<close> and, through it, \<open>configure_network\<close>, while the sibling
  \<open>test_robot_connectivity\<close>, which catches \<open>Exception\<close>, reports false.
\<close>

theorem check_network_configured_raises_OSError:
  "check_network_configured missing_ip_host lab_config []
     = (Inl OSError, [Run [''ip'', ''addr'', ''show'', ''eth0''] 5])
   \<and> configure_network missing_ip_host lab_config []
     = (Inl OSError, [Run [''ip'', ''addr'', ''show'', ''eth0''] 5])
   \<and> test_robot_connectivity missing_ip_host lab_config []
     = (False, [Run [''ping'', ''-c'', ''2'', ''-W'', ''3'', ''172.16.0.2''] 10])"
  by (simp add: check_network_configured_def configure_network_def test_robot_connectivity_def
        missing_ip_host_def lab_config_def show_command_def ping_command_def)

text \<open>The rest of the contract of \<open>check_network_configured\<close> holds.\<close>

lemma check_network_configured_true_iff:
  "(fst (check_network_configured h cfg tr) = Inr True) =
     (\<exists>result. h tr (show_command cfg) 5 = Inr result \<and> returncode result = 0
        \<and> py_in (local_ip cfg) (stdout result))"
  by (auto simp: check_network_configured_def split: sum.splits)

lemma check_network_configured_timeout:
  "h tr (show_command cfg) 5 = Inl TimeoutExpired \<Longrightarrow>
   check_network_configured h cfg tr = (Inr False, tr @ [Run (show_command cfg) 5])"
  by (simp add: check_network_configured_def)

lemma check_network_configured_trace:
  "snd (check_network_configured h cfg tr) = tr @ [Run (show_command cfg) 5]"
  by (simp add: check_network_configured_def split: sum.splits)

text \<open>
  Claim C7. In a state in which \<open>check_network_configured\<close> returns true,
  \<open>configure_network\<close> returns true having run the inspection command only, never the
  privileged add command; when the host still reports the address at the second call, calling
  it twice returns true both times, with two inspections and no add command.
\<close>

theorem configure_network_idempotent:
  assumes "fst (check_network_configured h cfg tr) = Inr True"
  shows "configure_network h cfg tr = (Inr True, tr @ [Run (show_command cfg) 5])
   \<and> (\<forall>t. Run (add_command cfg) t \<notin> set (drop (length tr) (snd (configure_network h cfg tr))))
   \<and> (fst (check_network_configured h cfg (tr @ [Run (show_command cfg) 5])) = Inr True \<longrightarrow>
        configure_network h cfg (snd (configure_network h cfg tr))
          = (Inr True, tr @ [Run (show_command cfg) 5, Run (show_command cfg) 5])
        \<and> (\<forall>t. Run (add_command cfg) t \<notin>
              set (drop (length tr) (snd (configure_network h cfg (snd (configure_network h cfg tr)))))))"
proof -
  have once: "configure_network h cfg s = (Inr True, s @ [Run (show_command cfg) 5])"
    if "fst (check_network_configured h cfg s) = Inr True" for s
  proof -
    from that check_network_configured_trace [of h cfg s]
    have "check_network_configured h cfg s = (Inr True, s @ [Run (show_command cfg) 5])"
      by (cases "check_network_configured h cfg s") simp
    then show ?thesis by (simp add: configure_network_def)
  qed
  have ne: "show_command cfg \<noteq> add_command cfg" by (simp add: show_command_def add_command_def)
  from once [OF assms] have 1: "configure_network h cfg tr = (Inr True, tr @ [Run (show_command cfg) 5])" .
  show ?thesis
  proof (intro conjI impI)
    show "configure_network h cfg tr = (Inr True, tr @ [Run (show_command cfg) 5])" by (rule 1)
    show "\<forall>t. Run (add_command cfg) t \<notin> set (drop (length tr) (snd (configure_network h cfg tr)))"
      using ne by (auto simp: 1)
  next
    assume 2: "fst (check_network_configured h cfg (tr @ [Run (show_command cfg) 5])) = Inr True"
    from once [OF 2] show "configure_network h cfg (snd (configure_network h cfg tr))
          = (Inr True, tr @ [Run (show_command cfg) 5, Run (show_command cfg) 5])"
      by (simp add: 1)
    with ne show "\<forall>t. Run (add_command cfg) t \<notin>
              set (drop (length tr) (snd (configure_network h cfg (snd (configure_network h cfg tr)))))"
      by auto
  qed
qed

lemma configured_host_check:
  "fst (check_network_configured configured_host lab_config tr) = Inr True"
  by (simp add: check_network_configured_def configured_host_def lab_config_def)

theorem configure_network_idempotent_witness:
  "configure_network configured_host lab_config [] = (Inr True, [Run [''ip'', ''addr'', ''show'', ''eth0''] 5])
   \<and> configure_network configured_host lab_config (snd (configure_network configured_host lab_config []))
       = (Inr True, [Run [''ip'', ''addr'', ''show'', ''eth0''] 5, Run [''ip'', ''addr'', ''show'', ''eth0''] 5])"
proof -
  note t = configure_network_idempotent [OF configured_host_check [of "[]"]]
  have s: "show_command lab_config = [''ip'', ''addr'', ''show'', ''eth0'']"
    by (simp add: show_command_def lab_config_def)
  from t have 1: "configure_network configured_host lab_config []
      = (Inr True, [] @ [Run (show_command lab_config) 5])" by blast
  from t configured_host_check [of "[] @ [Run (show_command lab_config) 5]"]
  have 2: "configure_network configured_host lab_config (snd (configure_network configured_host lab_config []))
      = (Inr True, [] @ [Run (show_command lab_config) 5, Run (show_command lab_config) 5])" by blast
  from 1 2 show ?thesis unfolding s by simp
qed

section \<open>Exceptions at the boundary\<close>

text \<open>
  Claim C8. The claim says every public operation returns a boolean on every path and lets
  no exception out. \<open>wait_for_ready\<close> catches \<open>TimeoutException\<close> only: when the wait
  raises another Selenium error (a lost session), the exception leaves \<open>wait_for_ready\<close>,
  while \<open>wait_for_element\<close>, with the same wait under a bare \<open>except\<close>, returns
  \<open>None\<close>.
\<close>

theorem wait_for_ready_lets_other_exceptions_through:
  "wait_for_ready crashed_browser [] = (Inl WebDriverException, [WaitPresence ready_locator 30000])
   \<and> wait_for_element crashed_browser ready_locator 30000 [] = (None, [WaitPresence ready_locator 30000])"
  by (simp add: wait_for_ready_def wait_for_element_def crashed_browser_def cooperative_browser_def)


section \<open>The numeric setters\<close>

lemma set_field_success:
  assumes "until_presence d tr l 15000 = Inr e"
    and "elem_click d (tr @ [WaitPresence l 15000]) e = None"
    and "perform d (tr @ [WaitPresence l 15000, Click e]) ks = None"
  shows "(case wait_for_element d l 15000 tr of
        (None, tr1) \<Rightarrow> (False, tr1)
      | (Some el, tr1) \<Rightarrow>
          (case elem_click d tr1 el of
             Some _ \<Rightarrow> (False, tr1 @ [Click el])
           | None \<Rightarrow>
               (case perform d (tr1 @ [Click el]) ks of
                  Some _ \<Rightarrow> (False, tr1 @ [Click el, Perform ks])
                | None \<Rightarrow> (True, tr1 @ [Click el, Perform ks]))))
       = (True, tr @ [WaitPresence l 15000, Click e, Perform ks])"
  using assms by (simp add: wait_for_element_def)

lemma set_field_first:
  "prefix (tr @ [WaitPresence l 15000])
     (snd (case wait_for_element d l 15000 tr of
        (None, tr1) \<Rightarrow> (False, tr1)
      | (Some el, tr1) \<Rightarrow>
          (case elem_click d tr1 el of
             Some _ \<Rightarrow> (False, tr1 @ [Click el])
           | None \<Rightarrow>
               (case perform d (tr1 @ [Click el]) ks of
                  Some _ \<Rightarrow> (False, tr1 @ [Click el, Perform ks])
                | None \<Rightarrow> (True, tr1 @ [Click el, Perform ks])))))"
  by (auto simp: wait_for_element_def split: sum.splits option.splits)

text \<open>
  Claim C9. \<open>set_force_value\<close> and \<open>set_load_value\<close> validate nothing: for every integer
  they go on to wait for the field, and when the field resolves, the click goes through and
  the key sequence is performed, they return true having typed the decimal string of the
  value. \<open>set_speed_value\<close> alone rejects a value outside its range before any
  interaction. Inside \<open>configure_gripper_close\<close> no interaction happens unless force and
  load are in range.
\<close>

theorem force_and_load_setters_do_not_validate:
  "(until_presence d tr (XPATH, force_input_xpath) 15000 = Inr e
      \<and> elem_click d (tr @ [WaitPresence (XPATH, force_input_xpath) 15000]) e = None
      \<and> perform d (tr @ [WaitPresence (XPATH, force_input_xpath) 15000, Click e]) (type_value force) = None
     \<longrightarrow> set_force_value d force tr
          = (True, tr @ [WaitPresence (XPATH, force_input_xpath) 15000, Click e, Perform (type_value force)]))
   \<and> (until_presence d tr (XPATH, load_input_xpath) 15000 = Inr e'
      \<and> elem_click d (tr @ [WaitPresence (XPATH, load_input_xpath) 15000]) e' = None
      \<and> perform d (tr @ [WaitPresence (XPATH, load_input_xpath) 15000, Click e']) (type_value load) = None
     \<longrightarrow> set_load_value d load tr
          = (True, tr @ [WaitPresence (XPATH, load_input_xpath) 15000, Click e', Perform (type_value load)]))
   \<and> prefix (tr @ [WaitPresence (XPATH, force_input_xpath) 15000]) (snd (set_force_value d force tr))
   \<and> prefix (tr @ [WaitPresence (XPATH, load_input_xpath) 15000]) (snd (set_load_value d load tr))
   \<and> (speed < 10 \<or> 100 < speed \<longrightarrow> set_speed_value d speed tr = (False, tr))
   \<and> (snd (configure_gripper_close d speed' force load tr) \<noteq> tr
        \<longrightarrow> 20 \<le> force \<and> force \<le> 100 \<and> 10 \<le> load \<and> load \<le> 1000)"
proof (intro conjI impI)
  assume "until_presence d tr (XPATH, force_input_xpath) 15000 = Inr e
      \<and> elem_click d (tr @ [WaitPresence (XPATH, force_input_xpath) 15000]) e = None
      \<and> perform d (tr @ [WaitPresence (XPATH, force_input_xpath) 15000, Click e]) (type_value force) = None"
  then show "set_force_value d force tr
          = (True, tr @ [WaitPresence (XPATH, force_input_xpath) 15000, Click e, Perform (type_value force)])"
    unfolding set_force_value_def by (intro set_field_success) simp_all
next
  assume "until_presence d tr (XPATH, load_input_xpath) 15000 = Inr e'
      \<and> elem_click d (tr @ [WaitPresence (XPATH, load_input_xpath) 15000]) e' = None
      \<and> perform d (tr @ [WaitPresence (XPATH, load_input_xpath) 15000, Click e']) (type_value load) = None"
  then show "set_load_value d load tr
          = (True, tr @ [WaitPresence (XPATH, load_input_xpath) 15000, Click e', Perform (type_value load)])"
    unfolding set_load_value_def by (intro set_field_success) simp_all
next
  show "prefix (tr @ [WaitPresence (XPATH, force_input_xpath) 15000]) (snd (set_force_value d force tr))"
    unfolding set_force_value_def by (rule set_field_first)
  show "prefix (tr @ [WaitPresence (XPATH, load_input_xpath) 15000]) (snd (set_load_value d load tr))"
    unfolding set_load_value_def by (rule set_field_first)
next
  assume "speed < 10 \<or> 100 < speed"
  then show "set_speed_value d speed tr = (False, tr)" by (auto simp: set_speed_value_def)
next
  assume a: "snd (configure_gripper_close d speed' force load tr) \<noteq> tr"
  have "10 \<le> speed' \<and> speed' \<le> 100 \<and> 20 \<le> force \<and> force \<le> 100 \<and> 10 \<le> load \<and> load \<le> 1000"
  proof (rule ccontr)
    assume "\<not> (10 \<le> speed' \<and> speed' \<le> 100 \<and> 20 \<le> force \<and> force \<le> 100 \<and> 10 \<le> load \<and> load \<le> 1000)"
    from configure_gripper_close_rejects [OF this, of d tr] a show False by simp
  qed
  then show "20 \<le> force" "force \<le> 100" "10 \<le> load" "load \<le> 1000" by simp_all
qed

lemma str_examples: "str 150 = ''150''" "str 5 = ''5''"
  by (simp_all add: str_def str_nat.simps)

theorem force_and_load_setters_do_not_validate_witness:
  "set_force_value cooperative_browser 150 []
     = (True, [WaitPresence (XPATH, force_input_xpath) 15000, Click 1,
               Perform [KeyDown CONTROL, SendKeys ''a'', KeyUp CONTROL, SendKeys ''150'', SendKey ENTER]])
   \<and> set_load_value cooperative_browser 5 []
     = (True, [WaitPresence (XPATH, load_input_xpath) 15000, Click 1,
               Perform [KeyDown CONTROL, SendKeys ''a'', KeyUp CONTROL, SendKeys ''5'', SendKey ENTER]])
   \<and> set_speed_value cooperative_browser 150 [] = (False, [])"
  using force_and_load_setters_do_not_validate
          [of cooperative_browser "[]" 1 150 1 5 150]
  by (simp add: cooperative_browser_def type_value_def str_examples)

end
